theory Spec2Isabelle
  imports Main "HOL-Library.Sublist"
begin

section \<open>JavaScript strings\<close>

text \<open>
  The library under verification is \<^verbatim>\<open>src/ccmanager.js\<close>, a cookie consent manager that runs
  in a browser page. The strings the page holds (cookies, attributes, values of inputs, the
  configuration) are modelled as \<^typ>\<open>string\<close>, one \<^typ>\<open>char\<close> for each code unit: they are
  the strings without a code unit above 255. \<^verbatim>\<open>JSON.parse\<close> makes strings with other code units
  out of such a text, so the strings of a parsed value are lists of code units, as numbers.
  The functions below are the string operations the library calls.
\<close>

text \<open>\<^verbatim>\<open>String.prototype.trim\<close> removes white space and line terminators at both ends.\<close>

definition js_whitespace :: "char \<Rightarrow> bool" where
  "js_whitespace c \<longleftrightarrow>
     c \<in> set [CHR 0x09, CHR 0x0A, CHR 0x0B, CHR 0x0C, CHR 0x0D, CHR 0x20, CHR 0xA0]"

definition trim :: "string \<Rightarrow> string" where
  "trim s = rev (dropWhile js_whitespace (rev (dropWhile js_whitespace s)))"

text \<open>\<^verbatim>\<open>s.split(sep)\<close> for a separator of one character: always at least one piece.\<close>

fun js_split :: "char \<Rightarrow> string \<Rightarrow> string list" where
  "js_split sep [] = [[]]"
| "js_split sep (c # cs) =
     (if c = sep then [] # js_split sep cs
      else (case js_split sep cs of
              [] \<Rightarrow> [[c]]
            | p # ps \<Rightarrow> (c # p) # ps))"

text \<open>\<^verbatim>\<open>s.indexOf(pat)\<close>: the first position where \<open>pat\<close> occurs, or \<open>-1\<close>.\<close>

fun indexOf_from :: "nat \<Rightarrow> 'a list \<Rightarrow> 'a list \<Rightarrow> int" where
  "indexOf_from i [] pat = (if pat = [] then int i else - 1)"
| "indexOf_from i (c # cs) pat =
     (if prefix pat (c # cs) then int i else indexOf_from (Suc i) cs pat)"

definition indexOf :: "'a list \<Rightarrow> 'a list \<Rightarrow> int" where
  "indexOf s pat = indexOf_from 0 s pat"

text \<open>\<^verbatim>\<open>s.includes(pat)\<close> on strings.\<close>

definition str_includes :: "'a list \<Rightarrow> 'a list \<Rightarrow> bool" where
  "str_includes s pat \<longleftrightarrow> indexOf s pat \<noteq> - 1"

text \<open>\<^verbatim>\<open>s.substring(a, b)\<close>: both indices are clamped to the length and swapped when
  \<open>a > b\<close>.\<close>

definition substring :: "string \<Rightarrow> nat \<Rightarrow> nat \<Rightarrow> string" where
  "substring s a b =
     (let a' = min a (length s); b' = min b (length s)
      in take (max a' b' - min a' b') (drop (min a' b') s))"

text \<open>\<^verbatim>\<open>s.charAt(i)\<close>: a string of one character, or the empty string out of range.\<close>

definition charAt :: "string \<Rightarrow> nat \<Rightarrow> string" where
  "charAt s i = (if i < length s then [s ! i] else [])"

section \<open>JSON\<close>

text \<open>
  \<^verbatim>\<open>JSON.stringify\<close> and \<^verbatim>\<open>JSON.parse\<close> belong to the language, not to the library; they are
  modelled after ECMA-404 and the ECMAScript definition of \<^verbatim>\<open>QuoteJSONString\<close>. A number is
  carried as its literal text (the library never serialises one), so no floating point
  arithmetic enters the model. An object is the list of its members in the order they were
  written. The type of a value has the type of the code units of its strings as parameter:
  \<^typ>\<open>char\<close> for the values the library builds and serialises, \<^typ>\<open>nat\<close> for the values
  \<^verbatim>\<open>JSON.parse\<close> returns; \<open>wide\<close> takes the first to the second.
\<close>

datatype 'c json =
    JNull
  | JBool bool
  | JNum string
  | JStr "'c list"
  | JArr "'c json list"
  | JObj "('c list \<times> 'c json) list"

definition wide :: "char json \<Rightarrow> nat json" where
  "wide = map_json of_char"

definition hex_digit :: "nat \<Rightarrow> char" where
  "hex_digit n = (if n < 10 then char_of (48 + n) else char_of (87 + n))"

definition hex_val :: "char \<Rightarrow> nat option" where
  "hex_val c =
     (let k = (of_char c :: nat)
      in if 48 \<le> k \<and> k \<le> 57 then Some (k - 48)
         else if 97 \<le> k \<and> k \<le> 102 then Some (k - 87)
         else if 65 \<le> k \<and> k \<le> 70 then Some (k - 55)
         else None)"

text \<open>One code unit of a string, as \<^verbatim>\<open>JSON.stringify\<close> writes it between the quotes.\<close>

definition json_escape :: "char \<Rightarrow> string" where
  "json_escape c =
     (if c = CHR 0x22 then [CHR 0x5C, CHR 0x22]
      else if c = CHR 0x5C then [CHR 0x5C, CHR 0x5C]
      else if c = CHR 0x08 then [CHR 0x5C, CHR ''b'']
      else if c = CHR 0x0C then [CHR 0x5C, CHR ''f'']
      else if c = CHR 0x0A then [CHR 0x5C, CHR ''n'']
      else if c = CHR 0x0D then [CHR 0x5C, CHR ''r'']
      else if c = CHR 0x09 then [CHR 0x5C, CHR ''t'']
      else if (of_char c :: nat) < 32 then
        [CHR 0x5C, CHR ''u'', CHR ''0'', CHR ''0'',
         hex_digit ((of_char c :: nat) div 16), hex_digit ((of_char c :: nat) mod 16)]
      else [c])"

definition JSON_quote :: "string \<Rightarrow> string" where
  "JSON_quote s = CHR 0x22 # concat (map json_escape s) @ [CHR 0x22]"

fun join_commas :: "string list \<Rightarrow> string" where
  "join_commas [] = []"
| "join_commas [x] = x"
| "join_commas (x # y # ys) = x @ CHR '','' # join_commas (y # ys)"

fun JSON_stringify :: "char json \<Rightarrow> string" where
  "JSON_stringify JNull = ''null''"
| "JSON_stringify (JBool b) = (if b then ''true'' else ''false'')"
| "JSON_stringify (JNum lit) = lit"
| "JSON_stringify (JStr s) = JSON_quote s"
| "JSON_stringify (JArr xs) = CHR ''['' # join_commas (map JSON_stringify xs) @ '']''"
| "JSON_stringify (JObj ms) =
     CHR ''{'' #
     join_commas (map (\<lambda>m. JSON_quote (fst m) @ CHR '':'' # JSON_stringify (snd m)) ms) @ ''}''"

text \<open>The character after a backslash in a JSON string, other than \<open>u\<close>.\<close>

definition json_unescape :: "char \<Rightarrow> char option" where
  "json_unescape e =
     (if e = CHR 0x22 then Some (CHR 0x22)
      else if e = CHR 0x5C then Some (CHR 0x5C)
      else if e = CHR ''/'' then Some (CHR ''/'')
      else if e = CHR ''b'' then Some (CHR 0x08)
      else if e = CHR ''f'' then Some (CHR 0x0C)
      else if e = CHR ''n'' then Some (CHR 0x0A)
      else if e = CHR ''r'' then Some (CHR 0x0D)
      else if e = CHR ''t'' then Some (CHR 0x09)
      else None)"

text \<open>
  The code units of a string after its opening quote, up to the closing quote, and the
  text that follows. A \<open>u\<close> escape gives the code unit its four hexadecimal digits
  denote.
\<close>

fun parse_chars :: "string \<Rightarrow> (nat list \<times> string) option" where
  "parse_chars [] = None"
| "parse_chars (c # cs) =
     (if c = CHR 0x22 then Some ([], cs)
      else if c = CHR 0x5C then
        (case cs of
           [] \<Rightarrow> None
         | e # cs' \<Rightarrow>
             if e = CHR ''u'' then
               (case cs' of
                  h1 # h2 # h3 # h4 # rest \<Rightarrow>
                    (case (hex_val h1, hex_val h2, hex_val h3, hex_val h4) of
                       (Some a, Some b, Some x, Some y) \<Rightarrow>
                         map_option (apfst (Cons (4096 * a + 256 * b + 16 * x + y)))
                           (parse_chars rest)
                     | _ \<Rightarrow> None)
                | _ \<Rightarrow> None)
             else
               (case json_unescape e of
                  None \<Rightarrow> None
                | Some x \<Rightarrow> map_option (apfst (Cons (of_char x))) (parse_chars cs')))
      else if (of_char c :: nat) < 32 then None
      else map_option (apfst (Cons (of_char c))) (parse_chars cs))"

definition is_digit :: "char \<Rightarrow> bool" where
  "is_digit c \<longleftrightarrow> 48 \<le> (of_char c :: nat) \<and> (of_char c :: nat) \<le> 57"

text \<open>The longest number literal at the head of the text: sign, integer part without a
  leading zero, optional fraction, optional exponent.\<close>

definition number_fraction :: "string \<Rightarrow> (string \<times> string) option" where
  "number_fraction s =
     (case s of
        [] \<Rightarrow> Some ([], s)
      | p # r \<Rightarrow>
          if p = CHR ''.'' then
            (if takeWhile is_digit r = [] then None
             else Some (p # takeWhile is_digit r, dropWhile is_digit r))
          else Some ([], s))"

definition number_exponent :: "string \<Rightarrow> (string \<times> string) option" where
  "number_exponent s =
     (case s of
        [] \<Rightarrow> Some ([], s)
      | e # r \<Rightarrow>
          if e = CHR ''e'' \<or> e = CHR ''E'' then
            (let esg = (if prefix ''+'' r then ''+'' else if prefix ''-'' r then ''-'' else []);
                 r1 = drop (length esg) r
             in if takeWhile is_digit r1 = [] then None
                else Some (e # esg @ takeWhile is_digit r1, dropWhile is_digit r1))
          else Some ([], s))"

definition parse_number :: "string \<Rightarrow> (string \<times> string) option" where
  "parse_number s =
     (let sgn = (if prefix ''-'' s then ''-'' else []);
          s1 = drop (length sgn) s;
          ds = takeWhile is_digit s1;
          s2 = dropWhile is_digit s1
      in if ds = [] \<or> (1 < length ds \<and> hd ds = CHR ''0'') then None
         else
           (case number_fraction s2 of
              None \<Rightarrow> None
            | Some (frac, s3) \<Rightarrow>
                (case number_exponent s3 of
                   None \<Rightarrow> None
                 | Some (ex, s4) \<Rightarrow> Some (sgn @ ds @ frac @ ex, s4))))"

definition json_ws :: "char \<Rightarrow> bool" where
  "json_ws c \<longleftrightarrow> c \<in> set [CHR 0x20, CHR 0x09, CHR 0x0A, CHR 0x0D]"

text \<open>
  A recursive descent over the text. The first argument bounds the number of calls; each
  call but the first follows at least one consumed character, or is the call for the first
  element of an array, so twice the length of the text and one more is always enough
  (lemma \<open>JSON_parse_fuel\<close> below).
\<close>

fun parse_value :: "nat \<Rightarrow> string \<Rightarrow> (nat json \<times> string) option"
  and parse_elements :: "nat \<Rightarrow> string \<Rightarrow> (nat json list \<times> string) option"
  and parse_members :: "nat \<Rightarrow> string \<Rightarrow> ((nat list \<times> nat json) list \<times> string) option"
where
  "parse_value 0 s = None"
| "parse_value (Suc n) s =
     (case dropWhile json_ws s of
        [] \<Rightarrow> None
      | c # cs \<Rightarrow>
          if c = CHR ''{'' then
            (case dropWhile json_ws cs of
               [] \<Rightarrow> None
             | d # ds \<Rightarrow>
                 if d = CHR ''}'' then Some (JObj [], ds)
                 else map_option (apfst JObj) (parse_members n cs))
          else if c = CHR ''['' then
            (case dropWhile json_ws cs of
               [] \<Rightarrow> None
             | d # ds \<Rightarrow>
                 if d = CHR '']'' then Some (JArr [], ds)
                 else map_option (apfst JArr) (parse_elements n cs))
          else if c = CHR 0x22 then map_option (apfst JStr) (parse_chars cs)
          else if prefix ''true'' (c # cs) then Some (JBool True, drop 4 (c # cs))
          else if prefix ''false'' (c # cs) then Some (JBool False, drop 5 (c # cs))
          else if prefix ''null'' (c # cs) then Some (JNull, drop 4 (c # cs))
          else map_option (apfst JNum) (parse_number (c # cs)))"
| "parse_elements 0 s = None"
| "parse_elements (Suc n) s =
     (case parse_value n s of
        None \<Rightarrow> None
      | Some (v, r) \<Rightarrow>
          (case dropWhile json_ws r of
             [] \<Rightarrow> None
           | c # cs \<Rightarrow>
               if c = CHR '','' then map_option (apfst (Cons v)) (parse_elements n cs)
               else if c = CHR '']'' then Some ([v], cs)
               else None))"
| "parse_members 0 s = None"
| "parse_members (Suc n) s =
     (case dropWhile json_ws s of
        [] \<Rightarrow> None
      | q # cs \<Rightarrow>
          if q = CHR 0x22 then
            (case parse_chars cs of
               None \<Rightarrow> None
             | Some (k, r) \<Rightarrow>
                 (case dropWhile json_ws r of
                    [] \<Rightarrow> None
                  | c # r2 \<Rightarrow>
                      if c = CHR '':'' then
                        (case parse_value n r2 of
                           None \<Rightarrow> None
                         | Some (v, r3) \<Rightarrow>
                             (case dropWhile json_ws r3 of
                                [] \<Rightarrow> None
                              | d # r4 \<Rightarrow>
                                  if d = CHR '','' then
                                    map_option (apfst (Cons (k, v))) (parse_members n r4)
                                  else if d = CHR ''}'' then Some ([(k, v)], r4)
                                  else None))
                      else None))
          else None)"

text \<open>\<^verbatim>\<open>JSON.parse(text)\<close>: \<open>None\<close> stands for the \<^verbatim>\<open>SyntaxError\<close> it throws.\<close>

definition JSON_parse :: "string \<Rightarrow> nat json option" where
  "JSON_parse s =
     (case parse_value (2 * length s + 1) s of
        None \<Rightarrow> None
      | Some (v, r) \<Rightarrow> if dropWhile json_ws r = [] then Some v else None)"

section \<open>The page: manager object, document, timers and cookie store\<close>

text \<open>The keys of \<^verbatim>\<open>CookieConsent.config\<close>, and the defaults the source gives them.\<close>

record config =
  cookieName :: string
  cookieExpiry :: int
  containerSelector :: string
  acceptClass :: string
  rejectClass :: string
  settingsClass :: string
  closeClass :: string
  showSettingsClass :: string
  viewCookiesClass :: string
  categoryCheckboxClass :: string
  inlineCookiesClass :: string

definition default_config :: config where
  "default_config =
     \<lparr> cookieName = ''cookie_consent'',
       cookieExpiry = 365,
       containerSelector = ''[data-cookie-consent]'',
       acceptClass = ''js-cookie-accept'',
       rejectClass = ''js-cookie-reject'',
       settingsClass = ''js-cookie-settings'',
       closeClass = ''js-cookie-close'',
       showSettingsClass = ''js-cookie-show-settings'',
       viewCookiesClass = ''js-cookie-view-cookies'',
       categoryCheckboxClass = ''js-cookie-category'',
       inlineCookiesClass = ''js-cookies-inline'' \<rparr>"

text \<open>The argument of \<^verbatim>\<open>init\<close>: every key may be left out.\<close>

record options =
  opt_cookieName :: "string option"
  opt_cookieExpiry :: "int option"
  opt_containerSelector :: "string option"
  opt_acceptClass :: "string option"
  opt_rejectClass :: "string option"
  opt_settingsClass :: "string option"
  opt_closeClass :: "string option"
  opt_showSettingsClass :: "string option"
  opt_viewCookiesClass :: "string option"
  opt_categoryCheckboxClass :: "string option"
  opt_inlineCookiesClass :: "string option"

definition no_options :: options where
  "no_options =
     \<lparr> opt_cookieName = None, opt_cookieExpiry = None, opt_containerSelector = None,
       opt_acceptClass = None, opt_rejectClass = None, opt_settingsClass = None,
       opt_closeClass = None, opt_showSettingsClass = None, opt_viewCookiesClass = None,
       opt_categoryCheckboxClass = None, opt_inlineCookiesClass = None \<rparr>"

text \<open>The consent decision the library builds in \<^verbatim>\<open>accept\<close> and \<^verbatim>\<open>reject\<close>.\<close>

record decision =
  accepted :: bool
  categories :: "string list"
  timestamp :: string

definition decision_json :: "decision \<Rightarrow> char json" where
  "decision_json d =
     JObj [(''accepted'', JBool (accepted d)),
           (''categories'', JArr (map JStr (categories d))),
           (''timestamp'', JStr (timestamp d))]"

text \<open>A cookie of the browser's store: name, value and expiry time (none for a session
  cookie), in milliseconds since the epoch.\<close>

record cookie =
  c_name :: string
  c_value :: string
  c_expires :: "int option"

datatype js_error = TypeError | SyntaxError

datatype 'a outcome = Returns 'a | Throws js_error

text \<open>The two callbacks the library hands to \<^verbatim>\<open>setTimeout\<close>, the five click handlers it binds
  and the payload of the events it dispatches.\<close>

datatype timer_action = AddVisible | DisplayNone

datatype handler = OnAccept | OnReject | OnClose | OnShowSettings | OnViewCookies

datatype detail = NoDetail | DecisionDetail decision | CookiesDetail "(string \<times> string) list"

text \<open>
  The state of the page. Elements of the document are numbered. \<open>selector_ok\<close> is the
  browser's parser of selectors: whether a text is a valid selector. \<open>querySelector\<close>,
  \<open>querySelectorAll\<close> and \<open>descendants\<close> give the elements a valid selector matches in the
  document and below an element, the next five fields are the properties of the elements the
  library reads or writes. \<open>now\<close> is the clock, \<open>timers\<close> the pending timeouts with the
  time they are due, \<open>jar\<close> the cookies the document can see, \<open>cookie_writes\<close> the strings
  assigned to \<^verbatim>\<open>document.cookie\<close>, \<open>events\<close> the events dispatched on the document,
  \<open>warnings\<close> the console, \<open>uncaught\<close> the errors thrown inside callbacks. \<open>overlay\<close> and
  \<open>inline_rows\<close> hold the cookie list handed to the modal and to the inline tables, whose
  markup is not modelled. The last three fields are \<^verbatim>\<open>Date.prototype.toISOString\<close>,
  \<^verbatim>\<open>Date.prototype.toUTCString\<close> and the browser's parser of cookie dates, on times in
  milliseconds.
\<close>

record world =
  config :: config
  container :: "nat option"
  position :: "string option"
  animation :: "string option"
  width :: "string option"
  selector_ok :: "string \<Rightarrow> bool"
  querySelector :: "string \<Rightarrow> nat option"
  querySelectorAll :: "string \<Rightarrow> nat list"
  descendants :: "nat \<Rightarrow> string \<Rightarrow> nat list"
  attributes :: "nat \<Rightarrow> string \<Rightarrow> string option"
  style :: "nat \<Rightarrow> string \<Rightarrow> string option"
  classList :: "nat \<Rightarrow> string list"
  checked :: "nat \<Rightarrow> bool"
  input_value :: "nat \<Rightarrow> string"
  listeners :: "(nat \<times> handler) list"
  now :: int
  timers :: "(int \<times> timer_action) list"
  jar :: "cookie list"
  cookie_writes :: "string list"
  events :: "(string \<times> detail) list"
  warnings :: "string list"
  uncaught :: "js_error list"
  overlay :: "(string \<times> string) list option"
  inline_rows :: "nat \<Rightarrow> (string \<times> string) list option"
  toISOString :: "int \<Rightarrow> string"
  toUTCString :: "int \<Rightarrow> string"
  cookie_date :: "string \<Rightarrow> int option"

section \<open>The browser's cookie store\<close>

text \<open>
  Reading and assigning \<^verbatim>\<open>document.cookie\<close>, after RFC 6265, sections 5.2 to 5.4, for a
  document whose cookies all have the path \<^verbatim>\<open>/\<close>: a cookie is known by its name. Of the
  attributes only \<^verbatim>\<open>Expires\<close> is interpreted; it is the only one with an effect on the
  store that the library writes.
\<close>

definition live :: "int \<Rightarrow> cookie \<Rightarrow> bool" where
  "live t c = (case c_expires c of None \<Rightarrow> True | Some e \<Rightarrow> t < e)"

fun cookie_string :: "cookie list \<Rightarrow> string" where
  "cookie_string [] = []"
| "cookie_string [c] = c_name c @ CHR ''='' # c_value c"
| "cookie_string (c # d # ds) = c_name c @ CHR ''='' # c_value c @ ''; '' @ cookie_string (d # ds)"

definition document_cookie :: "world \<Rightarrow> string" where
  "document_cookie w = cookie_string (filter (live (now w)) (jar w))"

definition cookie_ws :: "char \<Rightarrow> bool" where
  "cookie_ws c \<longleftrightarrow> c = CHR 0x20 \<or> c = CHR 0x09"

definition cookie_trim :: "string \<Rightarrow> string" where
  "cookie_trim s = rev (dropWhile cookie_ws (rev (dropWhile cookie_ws s)))"

definition lower_char :: "char \<Rightarrow> char" where
  "lower_char c =
     (if 65 \<le> (of_char c :: nat) \<and> (of_char c :: nat) \<le> 90
      then char_of ((of_char c :: nat) + 32) else c)"

text \<open>The expiry time the attributes give: the last \<^verbatim>\<open>Expires\<close> whose date parses.\<close>

definition attr_expiry :: "(string \<Rightarrow> int option) \<Rightarrow> int option \<Rightarrow> string \<Rightarrow> int option" where
  "attr_expiry parse_date e attr =
     (if map lower_char (cookie_trim (takeWhile (\<lambda>c. c \<noteq> CHR ''='') attr)) = ''expires''
      then (case parse_date (cookie_trim (drop 1 (dropWhile (\<lambda>c. c \<noteq> CHR ''='') attr))) of
              None \<Rightarrow> e
            | Some t \<Rightarrow> Some t)
      else e)"

text \<open>A cookie replaces the one of its name, in its place, or goes to the end.\<close>

fun store_cookie :: "cookie \<Rightarrow> cookie list \<Rightarrow> cookie list" where
  "store_cookie c [] = [c]"
| "store_cookie c (d # ds) = (if c_name d = c_name c then c # ds else d # store_cookie c ds)"

definition document_cookie_assign :: "string \<Rightarrow> world \<Rightarrow> world" where
  "document_cookie_assign str w =
     (let w' = w\<lparr>cookie_writes := cookie_writes w @ [str]\<rparr>;
          pair = takeWhile (\<lambda>c. c \<noteq> CHR '';'') str;
          attrs = js_split (CHR '';'') (drop 1 (dropWhile (\<lambda>c. c \<noteq> CHR '';'') str));
          name = cookie_trim (takeWhile (\<lambda>c. c \<noteq> CHR ''='') pair);
          val = cookie_trim (drop 1 (dropWhile (\<lambda>c. c \<noteq> CHR ''='') pair))
      in if CHR ''='' \<notin> set pair \<or> name = [] then w'
         else w'\<lparr>jar := filter (live (now w))
                    (store_cookie
                       \<lparr>c_name = name, c_value = val,
                        c_expires = foldl (attr_expiry (cookie_date w)) None attrs\<rparr>
                       (jar w))\<rparr>)"

section \<open>The consent manager\<close>

text \<open>
  Each method of \<^verbatim>\<open>CookieConsent\<close> is a function from the state of the page to what the call
  returns or throws, and the state it leaves. A method that throws leaves the effects it had
  before. Reading a property of \<^verbatim>\<open>this.container\<close> while that is \<^verbatim>\<open>null\<close> or undefined
  throws a \<^verbatim>\<open>TypeError\<close>.
\<close>

text \<open>
  \<^verbatim>\<open>document.querySelector\<close>, \<^verbatim>\<open>document.querySelectorAll\<close> and \<^verbatim>\<open>querySelectorAll\<close> of an
  element throw a \<^verbatim>\<open>SyntaxError\<close> when their argument is no valid selector.
\<close>

definition document_querySelector :: "string \<Rightarrow> world \<Rightarrow> nat option outcome" where
  "document_querySelector sel w =
     (if selector_ok w sel then Returns (querySelector w sel) else Throws SyntaxError)"

definition document_querySelectorAll :: "string \<Rightarrow> world \<Rightarrow> nat list outcome" where
  "document_querySelectorAll sel w =
     (if selector_ok w sel then Returns (querySelectorAll w sel) else Throws SyntaxError)"

definition element_querySelectorAll :: "nat \<Rightarrow> string \<Rightarrow> world \<Rightarrow> nat list outcome" where
  "element_querySelectorAll el sel w =
     (if selector_ok w sel then Returns (descendants w el sel) else Throws SyntaxError)"

definition set_style :: "nat \<Rightarrow> string \<Rightarrow> string \<Rightarrow> world \<Rightarrow> world" where
  "set_style el prop v w = w\<lparr>style := (style w)(el := (style w el)(prop := Some v))\<rparr>"

definition classList_add :: "nat \<Rightarrow> string \<Rightarrow> world \<Rightarrow> world" where
  "classList_add el cls w =
     w\<lparr>classList := (classList w)
          (el := (if cls \<in> set (classList w el) then classList w el else classList w el @ [cls]))\<rparr>"

definition classList_remove :: "nat \<Rightarrow> string \<Rightarrow> world \<Rightarrow> world" where
  "classList_remove el cls w =
     w\<lparr>classList := (classList w)(el := filter (\<lambda>c. c \<noteq> cls) (classList w el))\<rparr>"

definition setTimeout :: "timer_action \<Rightarrow> int \<Rightarrow> world \<Rightarrow> world" where
  "setTimeout act delay w = w\<lparr>timers := timers w @ [(now w + delay, act)]\<rparr>"

text \<open>
  \<^verbatim>\<open>triggerEvent\<close> dispatches a \<^verbatim>\<open>CustomEvent\<close> on the document. The events dispatched are
  recorded in order; what the host page's own listeners for them do is outside the source
  and is not part of the state.
\<close>

definition triggerEvent :: "string \<Rightarrow> detail \<Rightarrow> world \<Rightarrow> world" where
  "triggerEvent eventName data w =
     w\<lparr>events := events w @ [(''cookieConsent:'' @ eventName, data)]\<rparr>"

text \<open>\<^verbatim>\<open>show\<close> of the source; the name is a keyword of the proof language.\<close>

definition show_banner :: "world \<Rightarrow> unit outcome \<times> world" where
  "show_banner w =
     (case container w of
        None \<Rightarrow> (Throws TypeError, w)
      | Some el \<Rightarrow>
          (Returns (),
           triggerEvent ''banner-shown'' NoDetail
             (setTimeout AddVisible 10 (set_style el ''display'' ''block'' w))))"

definition hide :: "world \<Rightarrow> unit outcome \<times> world" where
  "hide w =
     (case container w of
        None \<Rightarrow> (Throws TypeError, w)
      | Some el \<Rightarrow>
          (Returns (),
           triggerEvent ''banner-hidden'' NoDetail
             (setTimeout DisplayNone 300 (classList_remove el ''is-visible'' w))))"

definition setCookie :: "string \<Rightarrow> string \<Rightarrow> int \<Rightarrow> world \<Rightarrow> world" where
  "setCookie name val days w =
     (let date = now w + days * 24 * 60 * 60 * 1000;
          expires = ''expires='' @ toUTCString w date
      in document_cookie_assign
           (name @ ''='' @ val @ '';'' @ expires @ '';path=/;SameSite=Strict'') w)"

fun skip_spaces :: "string \<Rightarrow> string" where
  "skip_spaces [] = []"
| "skip_spaces (c # cs) = (if c = CHR '' '' then skip_spaces cs else c # cs)"

fun getCookie_loop :: "string \<Rightarrow> string list \<Rightarrow> string option" where
  "getCookie_loop nameEQ [] = None"
| "getCookie_loop nameEQ (cookie # cookies) =
     (let cookie' = skip_spaces cookie
      in if indexOf cookie' nameEQ = 0
         then Some (substring cookie' (length nameEQ) (length cookie'))
         else getCookie_loop nameEQ cookies)"

definition getCookie :: "string \<Rightarrow> world \<Rightarrow> string option" where
  "getCookie name w =
     getCookie_loop (name @ ''='') (js_split (CHR '';'') (document_cookie w))"


definition getSelectedCategories :: "world \<Rightarrow> string list outcome" where
  "getSelectedCategories w =
     (case container w of
        None \<Rightarrow> Throws TypeError
      | Some el \<Rightarrow>
          (case element_querySelectorAll el (''.'' @ categoryCheckboxClass (config w)) w of
             Throws e \<Rightarrow> Throws e
           | Returns checkboxes \<Rightarrow>
               Returns
                 (foldl (\<lambda>cats checkbox.
                           if checked w checkbox then cats @ [input_value w checkbox] else cats)
                    [] checkboxes)))"

definition accept :: "world \<Rightarrow> unit outcome \<times> world" where
  "accept w =
     (case getSelectedCategories w of
        Throws e \<Rightarrow> (Throws e, w)
      | Returns cats \<Rightarrow>
          (let consentData =
                 \<lparr> accepted = True,
                   categories = (if 0 < length cats then cats
                                 else [''necessary'', ''analytics'', ''marketing'']),
                   timestamp = toISOString w (now w) \<rparr>;
               w1 = setCookie (cookieName (config w)) (JSON_stringify (decision_json consentData))
                      (cookieExpiry (config w)) w
           in case hide w1 of
                (Throws e, w2) \<Rightarrow> (Throws e, w2)
              | (Returns u, w2) \<Rightarrow>
                  (Returns (), triggerEvent ''consent-given'' (DecisionDetail consentData) w2)))"

definition reject :: "world \<Rightarrow> unit outcome \<times> world" where
  "reject w =
     (let consentData =
            \<lparr> accepted = False,
              categories = [''necessary''],
              timestamp = toISOString w (now w) \<rparr>;
          w1 = setCookie (cookieName (config w)) (JSON_stringify (decision_json consentData))
                 (cookieExpiry (config w)) w
      in case hide w1 of
           (Throws e, w2) \<Rightarrow> (Throws e, w2)
         | (Returns u, w2) \<Rightarrow>
             (Returns (), triggerEvent ''consent-rejected'' (DecisionDetail consentData) w2))"

text \<open>\<^verbatim>\<open>checkConsent\<close> tests the string \<^verbatim>\<open>getCookie\<close> returned for truth: \<^verbatim>\<open>null\<close> and the
  empty string are false.\<close>

definition checkConsent :: "world \<Rightarrow> string option outcome \<times> world" where
  "checkConsent w =
     (let consent = getCookie (cookieName (config w)) w
      in case (if consent = None \<or> consent = Some [] then show_banner w else hide w) of
           (Throws e, w1) \<Rightarrow> (Throws e, w1)
         | (Returns u, w1) \<Rightarrow> (Returns consent, w1))"

text \<open>\<^verbatim>\<open>getConsent\<close> returns \<^verbatim>\<open>null\<close>, here \<^const>\<open>JNull\<close>, for no cookie and for an empty one.\<close>

definition getConsent :: "world \<Rightarrow> nat json outcome" where
  "getConsent w =
     (case getCookie (cookieName (config w)) w of
        None \<Rightarrow> Returns JNull
      | Some consent \<Rightarrow>
          if consent = [] then Returns JNull
          else (case JSON_parse consent of
                  None \<Rightarrow> Throws SyntaxError
                | Some v \<Rightarrow> Returns v))"







text \<open>One piece of \<^verbatim>\<open>document.cookie\<close> in the reduction of \<^verbatim>\<open>viewCookies\<close>: the first two
  pieces of the split at \<open>=\<close> are the name and the value.\<close>

definition view_push :: "(string \<times> string) list \<Rightarrow> string \<Rightarrow> (string \<times> string) list" where
  "view_push acc cookie =
     (case js_split (CHR ''='') (trim cookie) of
        [] \<Rightarrow> acc
      | name # others \<Rightarrow>
          if name \<noteq> [] then acc @ [(name, (case others of [] \<Rightarrow> [] | v # vs \<Rightarrow> v))] else acc)"

definition allCookies :: "world \<Rightarrow> (string \<times> string) list" where
  "allCookies w = foldl view_push [] (js_split (CHR '';'') (document_cookie w))"

definition showDefaultCookieDisplay :: "(string \<times> string) list \<Rightarrow> world \<Rightarrow> world" where
  "showDefaultCookieDisplay cookies w = w\<lparr>overlay := Some cookies\<rparr>"

definition viewCookies :: "world \<Rightarrow> (string \<times> string) list outcome \<times> world" where
  "viewCookies w =
     (Returns (allCookies w),
      triggerEvent ''cookies-viewed'' (CookiesDetail (allCookies w))
        (showDefaultCookieDisplay (allCookies w) w))"

text \<open>
  The tables of \<^verbatim>\<open>applyPositioning\<close>. Both are plain objects, so a key such as
  \<^verbatim>\<open>toString\<close> finds an inherited member instead of nothing: as a position it has no keys
  of its own to copy, as a width it is no value a style property accepts.
\<close>

definition bottom_center :: "(string \<times> string) list" where
  "bottom_center =
     [(''bottom'', ''0''), (''left'', ''50%''), (''transform'', ''translateX(-50%)''),
      (''right'', ''auto''), (''top'', ''auto'')]"

definition positions :: "(string \<times> (string \<times> string) list) list" where
  "positions =
     [(''top-left'', [(''top'', ''0''), (''left'', ''0''), (''right'', ''auto''), (''bottom'', ''auto'')]),
      (''top-center'', [(''top'', ''0''), (''left'', ''50%''), (''transform'', ''translateX(-50%)''),
                        (''right'', ''auto''), (''bottom'', ''auto'')]),
      (''top-right'', [(''top'', ''0''), (''right'', ''0''), (''left'', ''auto''), (''bottom'', ''auto'')]),
      (''bottom-left'', [(''bottom'', ''0''), (''left'', ''0''), (''right'', ''auto''), (''top'', ''auto'')]),
      (''bottom-center'', bottom_center),
      (''bottom-right'', [(''bottom'', ''0''), (''right'', ''0''), (''left'', ''auto''), (''top'', ''auto'')]),
      (''center'', [(''top'', ''50%''), (''left'', ''50%''), (''transform'', ''translate(-50%, -50%)''),
                    (''right'', ''auto''), (''bottom'', ''auto'')])]"

definition widths :: "(string \<times> string) list" where
  "widths =
     [(''full'', ''100%''), (''half'', ''50%''), (''third'', ''33.333%''),
      (''quarter'', ''25%''), (''auto'', ''auto'')]"

definition object_prototype_names :: "string list" where
  "object_prototype_names =
     [''constructor'', ''toString'', ''toLocaleString'', ''valueOf'', ''hasOwnProperty'',
      ''isPrototypeOf'', ''propertyIsEnumerable'', ''__proto__'', ''__defineGetter__'',
      ''__defineSetter__'', ''__lookupGetter__'', ''__lookupSetter__'']"

definition positionStyles :: "string \<Rightarrow> (string \<times> string) list" where
  "positionStyles pos =
     (case map_of positions pos of
        Some st \<Rightarrow> st
      | None \<Rightarrow> if pos \<in> set object_prototype_names then [] else bottom_center)"

definition width_or_full :: "string \<Rightarrow> string option" where
  "width_or_full wd =
     (case map_of widths wd of
        Some v \<Rightarrow> Some v
      | None \<Rightarrow> if wd \<in> set object_prototype_names then None else Some ''100%'')"

text \<open>\<^verbatim>\<open>init\<close> calls \<^verbatim>\<open>applyPositioning\<close> once it has found the container and read the three
  directives; called without them the model refuses at once.\<close>

definition applyPositioning :: "world \<Rightarrow> unit outcome \<times> world" where
  "applyPositioning w =
     (case (container w, position w, animation w, width w) of
        (Some el, Some pos, Some anim, Some wd) \<Rightarrow>
          (let w1 = set_style el ''zIndex'' ''9999'' (set_style el ''position'' ''fixed'' w);
               w2 = foldl (\<lambda>v kv. set_style el (fst kv) (snd kv) v) w1 (positionStyles pos);
               isEdgePosition = (pos \<notin> set [''top-center'', ''bottom-center'', ''center'']);
               inset = set_style el ''width'' ''auto''
                         (set_style el ''right'' ''0'' (set_style el ''left'' ''0'' w2));
               w3 = (if wd = ''full'' \<and> isEdgePosition then
                       (if str_includes pos ''top'' then inset
                        else if str_includes pos ''bottom'' then inset
                        else w2)
                     else if wd \<noteq> ''auto'' then
                       (let w2a = (case width_or_full wd of
                                     None \<Rightarrow> w2
                                   | Some v \<Rightarrow> set_style el ''width'' v w2)
                        in if wd \<noteq> ''full'' then
                             (case map_of widths wd of
                                None \<Rightarrow> w2a
                              | Some v \<Rightarrow> set_style el ''maxWidth'' v w2a)
                           else w2a)
                     else w2)
           in (Returns (),
               w3\<lparr>attributes := (attributes w3)
                     (el := (attributes w3 el)(''data-cookie-consent-animation'' := Some anim))\<rparr>))
      | _ \<Rightarrow> (Throws TypeError, w))"

text \<open>\<^verbatim>\<open>bindEvents\<close> makes its five queries before it binds the first handler; the first
  of them that throws ends it.\<close>

definition bindEvents :: "world \<Rightarrow> unit outcome \<times> world" where
  "bindEvents w =
     (case container w of
        None \<Rightarrow> (Throws TypeError, w)
      | Some el \<Rightarrow>
          (case element_querySelectorAll el (''.'' @ acceptClass (config w)) w of
             Throws e \<Rightarrow> (Throws e, w)
           | Returns acceptBtns \<Rightarrow>
          (case element_querySelectorAll el (''.'' @ rejectClass (config w)) w of
             Throws e \<Rightarrow> (Throws e, w)
           | Returns rejectBtns \<Rightarrow>
          (case element_querySelectorAll el (''.'' @ closeClass (config w)) w of
             Throws e \<Rightarrow> (Throws e, w)
           | Returns closeBtns \<Rightarrow>
          (case document_querySelectorAll (''.'' @ showSettingsClass (config w)) w of
             Throws e \<Rightarrow> (Throws e, w)
           | Returns showSettingsBtns \<Rightarrow>
          (case document_querySelectorAll (''.'' @ viewCookiesClass (config w)) w of
             Throws e \<Rightarrow> (Throws e, w)
           | Returns viewCookiesBtns \<Rightarrow>
               (Returns (),
                w\<lparr>listeners := listeners w
                      @ map (\<lambda>btn. (btn, OnAccept)) acceptBtns
                      @ map (\<lambda>btn. (btn, OnReject)) rejectBtns
                      @ map (\<lambda>btn. (btn, OnClose)) closeBtns
                      @ map (\<lambda>btn. (btn, OnShowSettings)) showSettingsBtns
                      @ map (\<lambda>btn. (btn, OnViewCookies)) viewCookiesBtns\<rparr>)))))))"

text \<open>\<^verbatim>\<open>renderInlineCookies\<close> fills every inline container with a table of the cookies; the
  model keeps the list of cookies it renders and the class it adds.\<close>

definition render_inline :: "(string \<times> string) list \<Rightarrow> world \<Rightarrow> nat \<Rightarrow> world" where
  "render_inline rows v c =
     (let v1 = (if ''cookie-consent-inline'' \<in> set (classList v c) then v
                else classList_add c ''cookie-consent-inline'' v)
      in v1\<lparr>inline_rows := (inline_rows v1)(c := Some rows)\<rparr>)"

definition renderInlineCookies :: "world \<Rightarrow> unit outcome \<times> world" where
  "renderInlineCookies w =
     (case document_querySelectorAll (''.'' @ inlineCookiesClass (config w)) w of
        Throws e \<Rightarrow> (Throws e, w)
      | Returns inlineContainers \<Rightarrow>
          if length inlineContainers = 0 then (Returns (), w)
          else (Returns (), foldl (render_inline (allCookies w)) w inlineContainers))"

text \<open>\<^verbatim>\<open>{ ...this.config, ...options }\<close>: a key of the options replaces the one of the
  configuration.\<close>

definition merge_config :: "config \<Rightarrow> options \<Rightarrow> config" where
  "merge_config c opts =
     \<lparr> cookieName = (case opt_cookieName opts of None \<Rightarrow> cookieName c | Some v \<Rightarrow> v),
       cookieExpiry = (case opt_cookieExpiry opts of None \<Rightarrow> cookieExpiry c | Some v \<Rightarrow> v),
       containerSelector =
         (case opt_containerSelector opts of None \<Rightarrow> containerSelector c | Some v \<Rightarrow> v),
       acceptClass = (case opt_acceptClass opts of None \<Rightarrow> acceptClass c | Some v \<Rightarrow> v),
       rejectClass = (case opt_rejectClass opts of None \<Rightarrow> rejectClass c | Some v \<Rightarrow> v),
       settingsClass = (case opt_settingsClass opts of None \<Rightarrow> settingsClass c | Some v \<Rightarrow> v),
       closeClass = (case opt_closeClass opts of None \<Rightarrow> closeClass c | Some v \<Rightarrow> v),
       showSettingsClass =
         (case opt_showSettingsClass opts of None \<Rightarrow> showSettingsClass c | Some v \<Rightarrow> v),
       viewCookiesClass =
         (case opt_viewCookiesClass opts of None \<Rightarrow> viewCookiesClass c | Some v \<Rightarrow> v),
       categoryCheckboxClass =
         (case opt_categoryCheckboxClass opts of None \<Rightarrow> categoryCheckboxClass c | Some v \<Rightarrow> v),
       inlineCookiesClass =
         (case opt_inlineCookiesClass opts of None \<Rightarrow> inlineCookiesClass c | Some v \<Rightarrow> v) \<rparr>"

text \<open>\<^verbatim>\<open>getAttribute(name) || fallback\<close>: a missing and an empty attribute give the
  fallback.\<close>

definition attribute_or :: "world \<Rightarrow> nat \<Rightarrow> string \<Rightarrow> string \<Rightarrow> string" where
  "attribute_or w el name fallback =
     (case attributes w el name of
        None \<Rightarrow> fallback
      | Some v \<Rightarrow> if v = [] then fallback else v)"

definition init :: "options \<Rightarrow> world \<Rightarrow> unit outcome \<times> world" where
  "init opts w =
     (let w1 = w\<lparr>config := merge_config (config w) opts\<rparr>
      in case document_querySelector (containerSelector (config w1)) w1 of
           Throws e \<Rightarrow> (Throws e, w1)
         | Returns found \<Rightarrow>
             (let w2 = w1\<lparr>container := found\<rparr>
              in case container w2 of
                   None \<Rightarrow>
                     (Returns (),
                      w2\<lparr>warnings := warnings w2 @ [''Cookie consent container not found'']\<rparr>)
                 | Some el \<Rightarrow>
                     (let w3 = w2\<lparr>position :=
                                    Some (attribute_or w2 el ''data-cookie-consent-position''
                                            ''bottom-center''),
                                  animation :=
                                    Some (attribute_or w2 el ''data-cookie-consent-animation''
                                            ''slide''),
                                  width :=
                                    Some (attribute_or w2 el ''data-cookie-consent-width''
                                            ''full'')\<rparr>
                      in case applyPositioning w3 of
                           (Throws e, w4) \<Rightarrow> (Throws e, w4)
                         | (Returns u, w4) \<Rightarrow>
                             (case bindEvents w4 of
                                (Throws e, w5) \<Rightarrow> (Throws e, w5)
                              | (Returns u', w5) \<Rightarrow>
                                  (case checkConsent w5 of
                                     (Throws e, w6) \<Rightarrow> (Throws e, w6)
                                   | (Returns c, w6) \<Rightarrow> renderInlineCookies w6)))))"

section \<open>Timers\<close>

text \<open>
  A callback of \<^verbatim>\<open>setTimeout\<close> runs once its time has come, between two calls of the page's
  code; of two that are due the earlier one runs first, and of two due at the same time the
  one that was set first. The callbacks of the library read \<^verbatim>\<open>this.container\<close> when they
  run; an error they throw goes to the console. \<open>advance\<close> lets time pass, \<open>settle\<close> runs
  every timer that is still pending.
\<close>

definition fire :: "timer_action \<Rightarrow> world \<Rightarrow> world" where
  "fire act w =
     (case container w of
        None \<Rightarrow> w\<lparr>uncaught := uncaught w @ [TypeError]\<rparr>
      | Some el \<Rightarrow>
          (case act of
             AddVisible \<Rightarrow> classList_add el ''is-visible'' w
           | DisplayNone \<Rightarrow> set_style el ''display'' ''none'' w))"

definition advance :: "nat \<Rightarrow> world \<Rightarrow> world" where
  "advance d w =
     (let t = now w + int d;
          due = filter (\<lambda>p. fst p \<le> t) (timers w);
          w' = w\<lparr>timers := filter (\<lambda>p. \<not> fst p \<le> t) (timers w)\<rparr>
      in (foldl (\<lambda>v p. fire (snd p) v) w' (sort_key fst due))\<lparr>now := t\<rparr>)"

definition settle :: "world \<Rightarrow> world" where
  "settle w =
     (foldl (\<lambda>v p. fire (snd p) v) (w\<lparr>timers := []\<rparr>) (sort_key fst (timers w)))
       \<lparr>now := foldl max (now w) (map fst (timers w))\<rparr>"

text \<open>A click runs the handlers bound to the element, in the order they were bound; an
  error a handler throws goes to the console.\<close>

definition caught :: "'a outcome \<times> world \<Rightarrow> world" where
  "caught r =
     (case r of
        (Throws e, w) \<Rightarrow> w\<lparr>uncaught := uncaught w @ [e]\<rparr>
      | (Returns x, w) \<Rightarrow> w)"

definition run_handler :: "handler \<Rightarrow> world \<Rightarrow> world" where
  "run_handler h w =
     (case h of
        OnAccept \<Rightarrow> caught (accept w)
      | OnReject \<Rightarrow> caught (reject w)
      | OnClose \<Rightarrow> caught (hide w)
      | OnShowSettings \<Rightarrow> caught (show_banner w)
      | OnViewCookies \<Rightarrow> caught (viewCookies w))"

definition click :: "nat \<Rightarrow> world \<Rightarrow> world" where
  "click btn w =
     foldl (\<lambda>v p. if fst p = btn then run_handler (snd p) v else v) w (listeners w)"

text \<open>A run of the page: calls of \<^verbatim>\<open>show\<close> and \<^verbatim>\<open>hide\<close>, and time that passes between
  them.\<close>

datatype call = Show | Hide | Wait nat

fun run :: "call list \<Rightarrow> world \<Rightarrow> world" where
  "run [] w = w"
| "run (Show # cs) w = run cs (snd (show_banner w))"
| "run (Hide # cs) w = run cs (snd (hide w))"
| "run (Wait d # cs) w = run cs (advance d w)"

section \<open>Vocabulary of the claims\<close>

text \<open>
  \<open>written w w' d\<close>: from \<open>w\<close> to \<open>w'\<close> one string was assigned to \<^verbatim>\<open>document.cookie\<close>,
  the one \<^verbatim>\<open>setCookie\<close> builds for the decision \<open>d\<close> under the configured name and
  expiry; what the cookie store makes of the assignment is another matter.
  \<open>hidden_by w w' el\<close>: from \<open>w\<close> to \<open>w'\<close> the banner \<open>el\<close> went the way of
  \<^verbatim>\<open>hide\<close>: the class is gone, the deferred display toggle is pending, and once the timers
  have run the banner is out of the layout.
\<close>

definition written :: "world \<Rightarrow> world \<Rightarrow> decision \<Rightarrow> bool" where
  "written w w' d \<longleftrightarrow>
     cookie_writes w' = cookie_writes w @
       [cookieName (config w) @ ''='' @ JSON_stringify (decision_json d) @ '';expires='' @
        toUTCString w (now w + cookieExpiry (config w) * 24 * 60 * 60 * 1000) @
        '';path=/;SameSite=Strict'']"

definition hidden_by :: "world \<Rightarrow> world \<Rightarrow> nat \<Rightarrow> bool" where
  "hidden_by w w' el \<longleftrightarrow>
     classList w' el = filter (\<lambda>c. c \<noteq> ''is-visible'') (classList w el) \<and>
     timers w' = timers w @ [(now w + 300, DisplayNone)] \<and>
     style (settle w') el ''display'' = Some ''none''"

text \<open>
  A record name the cookie store takes as it is: not empty, and free of \<open>;\<close>, \<open>=\<close>, space
  and tab. \<open>jar_ok\<close> holds of the stores the browser builds: no name or value has a
  \<open>;\<close>, no name has a \<open>=\<close> or starts with a space.
\<close>

definition cookie_token :: "string \<Rightarrow> bool" where
  "cookie_token n \<longleftrightarrow>
     n \<noteq> [] \<and> (\<forall>c \<in> set n. c \<noteq> CHR '';'' \<and> c \<noteq> CHR ''='' \<and> \<not> cookie_ws c)"

definition jar_ok :: "cookie list \<Rightarrow> bool" where
  "jar_ok cs \<longleftrightarrow>
     (\<forall>c \<in> set cs. CHR '';'' \<notin> set (c_name c) \<and> CHR '';'' \<notin> set (c_value c) \<and>
        CHR ''='' \<notin> set (c_name c) \<and> \<not> prefix '' '' (c_name c))"

text \<open>
  The record stored under the configured name: the first cookie of that name that has not
  expired. \<open>untouched w w'\<close>: from \<open>w\<close> to \<open>w'\<close> the layout, the handlers and the inline tables
  may have changed, and nothing else that the claims speak of.
\<close>

definition stored_record :: "world \<Rightarrow> cookie option" where
  "stored_record w =
     find (\<lambda>c. c_name c = cookieName (config w)) (filter (live (now w)) (jar w))"

definition untouched :: "world \<Rightarrow> world \<Rightarrow> bool" where
  "untouched w w' \<longleftrightarrow>
     config w' = config w \<and> container w' = container w \<and> jar w' = jar w \<and> now w' = now w \<and>
     timers w' = timers w \<and> events w' = events w \<and> warnings w' = warnings w \<and>
     cookie_writes w' = cookie_writes w \<and> selector_ok w' = selector_ok w \<and>
     querySelectorAll w' = querySelectorAll w \<and> descendants w' = descendants w \<and>
     (\<forall>e. style w' e ''display'' = style w e ''display'') \<and>
     (\<forall>e. ''is-visible'' \<in> set (classList w' e) \<longleftrightarrow> ''is-visible'' \<in> set (classList w e))"

text \<open>
  \<open>stored_decision w d\<close>: the record the store holds under the configured name has the JSON
  text of the decision \<open>d\<close> as its value. \<open>persisted w w' d\<close>: the call that led from \<open>w\<close>
  to \<open>w'\<close> wrote the decision \<open>d\<close>, and the store holds it. \<open>button_selectors\<close> are the
  five selectors \<^verbatim>\<open>bindEvents\<close> queries, in the order of its queries.
\<close>

definition stored_decision :: "world \<Rightarrow> decision \<Rightarrow> bool" where
  "stored_decision w d \<longleftrightarrow>
     map_option c_value (stored_record w) = Some (JSON_stringify (decision_json d))"

definition persisted :: "world \<Rightarrow> world \<Rightarrow> decision \<Rightarrow> bool" where
  "persisted w w' d \<longleftrightarrow> written w w' d \<and> stored_decision w' d"

text \<open>
  \<open>expiry_time w\<close> is the time \<^verbatim>\<open>setCookie\<close> computes for the end of the record,
  \<open>record_cookie w d\<close> the cookie its assignment asks the store to keep for the decision
  \<open>d\<close>. \<open>expiry_ahead w\<close>: the browser does not read the date of that time as one that has
  passed (a date it cannot read makes a cookie without expiry).
\<close>

definition expiry_time :: "world \<Rightarrow> int" where
  "expiry_time w = now w + cookieExpiry (config w) * 24 * 60 * 60 * 1000"

definition record_cookie :: "world \<Rightarrow> decision \<Rightarrow> cookie" where
  "record_cookie w d =
     \<lparr>c_name = cookieName (config w), c_value = JSON_stringify (decision_json d),
      c_expires = cookie_date w (cookie_trim (toUTCString w (expiry_time w)))\<rparr>"

definition expiry_ahead :: "world \<Rightarrow> bool" where
  "expiry_ahead w \<longleftrightarrow>
     (case cookie_date w (cookie_trim (toUTCString w (expiry_time w))) of
        None \<Rightarrow> True
      | Some e \<Rightarrow> now w < e)"

definition button_selectors :: "config \<Rightarrow> string list" where
  "button_selectors c =
     [''.'' @ acceptClass c, ''.'' @ rejectClass c, ''.'' @ closeClass c,
      ''.'' @ showSettingsClass c, ''.'' @ viewCookiesClass c]"

text \<open>
  URL-encoding, which the source never calls: \<^verbatim>\<open>encodeURIComponent\<close> of the language, after
  the words of the specification on the persisted record. It keeps letters, digits and
  \<^verbatim>\<open>-_.!~*'()\<close> and writes every other code unit as the bytes of its UTF-8 form, each a
  \<open>%\<close> and two hexadecimal digits.
\<close>

definition uri_unreserved :: "char \<Rightarrow> bool" where
  "uri_unreserved c \<longleftrightarrow>
     (let k = (of_char c :: nat)
      in (65 \<le> k \<and> k \<le> 90) \<or> (97 \<le> k \<and> k \<le> 122) \<or> (48 \<le> k \<and> k \<le> 57) \<or>
         c \<in> set ''-_.!~*'()'')"

definition upper_hex_digit :: "nat \<Rightarrow> char" where
  "upper_hex_digit n = (if n < 10 then char_of (48 + n) else char_of (55 + n))"

definition percent_byte :: "nat \<Rightarrow> string" where
  "percent_byte b = [CHR ''%'', upper_hex_digit (b div 16), upper_hex_digit (b mod 16)]"

definition encodeURIComponent :: "string \<Rightarrow> string" where
  "encodeURIComponent s =
     concat (map (\<lambda>c. if uri_unreserved c then [c]
                       else if (of_char c :: nat) < 128 then percent_byte (of_char c)
                       else percent_byte (192 + (of_char c :: nat) div 64) @
                            percent_byte (128 + (of_char c :: nat) mod 64)) s)"




text \<open>
  \<open>hiding el w\<close>: the display toggle of a \<^verbatim>\<open>hide\<close> is pending or has been the last to write
  the display of the banner. \<open>showing el w\<close>: no such toggle is pending and the banner is
  displayed.
\<close>

definition hiding :: "nat \<Rightarrow> world \<Rightarrow> bool" where
  "hiding el w \<longleftrightarrow>
     container w = Some el \<and>
     (DisplayNone \<in> snd ` set (timers w) \<or> style w el ''display'' = Some ''none'')"

definition showing :: "nat \<Rightarrow> world \<Rightarrow> bool" where
  "showing el w \<longleftrightarrow>
     container w = Some el \<and> DisplayNone \<notin> snd ` set (timers w) \<and>
     style w el ''display'' = Some ''block''"

section \<open>An example page\<close>

text \<open>
  A page after \<^verbatim>\<open>init\<close> with the default configuration: the banner is element 0, below it
  two category inputs, \<^verbatim>\<open>analytics\<close> (checked) and \<^verbatim>\<open>marketing\<close>; no cookie is set. The clock
  stands at 2024-01-15 10:30 UTC. Of the selectors the page is asked for, those of the
  default configuration are valid; the text of a single dot and the empty text are not.
\<close>

definition default_selectors :: "string list" where
  "default_selectors =
     [''[data-cookie-consent]'', ''.js-cookie-accept'', ''.js-cookie-reject'',
      ''.js-cookie-close'', ''.js-cookie-show-settings'', ''.js-cookie-view-cookies'',
      ''.js-cookie-category'', ''.js-cookies-inline'']"

definition example_page :: world where
  "example_page =
     \<lparr> config = default_config,
       container = Some 0,
       position = Some ''bottom-center'',
       animation = Some ''slide'',
       width = Some ''full'',
       selector_ok = (\<lambda>sel. sel \<in> set default_selectors),
       querySelector = (\<lambda>sel. if sel = ''[data-cookie-consent]'' then Some 0 else None),
       querySelectorAll = (\<lambda>sel. []),
       descendants = (\<lambda>el sel. if el = 0 \<and> sel = ''.js-cookie-category'' then [1, 2] else []),
       attributes = (\<lambda>el name. None),
       style = (\<lambda>el prop. None),
       classList = (\<lambda>el. []),
       checked = (\<lambda>el. el = 1),
       input_value = (\<lambda>el. if el = 1 then ''analytics'' else ''marketing''),
       listeners = [],
       now = 1705314600000,
       timers = [],
       jar = [],
       cookie_writes = [],
       events = [],
       warnings = [],
       uncaught = [],
       overlay = None,
       inline_rows = (\<lambda>el. None),
       toISOString = (\<lambda>t. if t = 1705314600000 then ''2024-01-15T10:30:00.000Z'' else []),
       toUTCString = (\<lambda>t. if t = 1736850600000 then ''Tue, 14 Jan 2025 10:30:00 GMT'' else []),
       cookie_date = (\<lambda>s. if s = ''Tue, 14 Jan 2025 10:30:00 GMT'' then Some 1736850600000
                          else if s = ''Thu, 01 Jan 1970 00:00:00 UTC'' then Some 0 else None) \<rparr>"

text \<open>The example page with a record under the configured name that is no JSON text.\<close>

definition corrupted_page :: world where
  "corrupted_page = example_page\<lparr>jar := [\<lparr>c_name = ''cookie_consent'', c_value = ''abc'', c_expires = None\<rparr>]\<rparr>"

text \<open>The example page with no category input checked.\<close>

definition unchecked_page :: world where
  "unchecked_page = example_page\<lparr>checked := (\<lambda>el. False)\<rparr>"


text \<open>The example page with the checked input carrying the value \<^verbatim>\<open>a;b\<close>.\<close>

definition semicolon_page :: world where
  "semicolon_page = example_page\<lparr>input_value := (\<lambda>el. if el = 1 then ''a;b'' else ''marketing'')\<rparr>"

text \<open>The example page configured with an empty category class, whose selector is a single
  dot.\<close>

definition classless_page :: world where
  "classless_page = example_page\<lparr>config := default_config\<lparr>categoryCheckboxClass := []\<rparr>\<rparr>"

text \<open>The example page configured with an expiry of minus one day: the record ends on
  2024-01-14 10:30 UTC, a day before the clock of the page.\<close>

definition expired_page :: world where
  "expired_page =
     example_page\<lparr>config := default_config\<lparr>cookieExpiry := - 1\<rparr>,
       toUTCString := (\<lambda>t. if t = 1705228200000 then ''Sun, 14 Jan 2024 10:30:00 GMT'' else []),
       cookie_date := (\<lambda>s. if s = ''Sun, 14 Jan 2024 10:30:00 GMT'' then Some 1705228200000
                           else None)\<rparr>"

text \<open>The options that set an empty class for the accept buttons, and those that set an
  empty container selector.\<close>

definition classless_options :: options where
  "classless_options = no_options\<lparr>opt_acceptClass := Some []\<rparr>"


text \<open>The example page before \<^verbatim>\<open>init\<close>, in a document where no selector matches.\<close>

definition bare_page :: world where
  "bare_page = example_page\<lparr>container := None, position := None, animation := None,
     width := None, querySelector := (\<lambda>sel. None)\<rparr>"

section \<open>Lemmas on the string operations\<close>

lemma js_split_nonempty: "js_split sep s \<noteq> []"
  by (induction s) (auto split: list.splits)

lemma js_split_no_sep: "sep \<notin> set a \<Longrightarrow> js_split sep a = [a]"
  by (induction a) auto

lemma js_split_append:
  "sep \<notin> set a \<Longrightarrow> js_split sep (a @ sep # b) = a # js_split sep b"
  by (induction a) auto

lemma indexOf_from_ge: "indexOf_from i s pat = - 1 \<or> int i \<le> indexOf_from i s pat"
  by (induction i s pat rule: indexOf_from.induct) auto

lemma indexOf_from_zero: "indexOf_from i s pat = int i \<longleftrightarrow> prefix pat s"
proof (cases s)
  case Nil
  then show ?thesis by auto
next
  case (Cons c cs)
  have "indexOf_from (Suc i) cs pat \<noteq> int i"
    using indexOf_from_ge [of "Suc i" cs pat] by auto
  with Cons show ?thesis by auto
qed

lemma indexOf_zero: "indexOf s pat = 0 \<longleftrightarrow> prefix pat s"
  using indexOf_from_zero [of 0 s pat] by (simp add: indexOf_def)

lemma substring_to_end: "substring s a (length s) = drop a s"
  by (simp add: substring_def Let_def min_def max_def)

section \<open>The bound on the parser's calls\<close>

text \<open>
  Every successful call of the parser consumes at least one character, so a call with more
  than twice the length of the text and one more to spend returns what the call with
  exactly that much returns: \<open>None\<close> from \<open>JSON_parse\<close> is a syntax error, never an
  exhausted bound.
\<close>

lemma parse_chars_shorter: "parse_chars s = Some (k, r) \<Longrightarrow> length r < length s"
proof (induction "length s" arbitrary: s k r rule: less_induct)
  case less
  show ?case
  proof (cases s)
    case Nil
    with less.prems show ?thesis by simp
  next
    case (Cons c cs)
    from less.prems Cons
    have "r = cs \<or> (\<exists>rest k'. length rest \<le> length cs \<and> parse_chars rest = Some (k', r))"
      by (auto split: if_splits list.splits option.splits)
    then consider "r = cs"
      | rest k' where "length rest \<le> length cs" "parse_chars rest = Some (k', r)"
      by blast
    then show ?thesis
    proof cases
      case 1
      then show ?thesis using Cons by simp
    next
      case 2
      have "length rest < length s" using 2(1) Cons by simp
      from less.hyps [OF this 2(2)] 2(1) Cons show ?thesis by simp
    qed
  qed
qed

lemma number_fraction_shorter: "number_fraction s = Some (f, r) \<Longrightarrow> length r \<le> length s"
  using length_dropWhile_le [of is_digit "tl s"]
  by (auto simp: number_fraction_def split: list.splits if_splits)

lemma number_exponent_shorter: "number_exponent s = Some (f, r) \<Longrightarrow> length r \<le> length s"
proof (cases s)
  case Nil
  then show "number_exponent s = Some (f, r) \<Longrightarrow> ?thesis" by (simp add: number_exponent_def)
next
  case (Cons e q)
  have "length (dropWhile is_digit (drop m q)) \<le> Suc (length q)" for m
    using length_dropWhile_le [of is_digit "drop m q"] by simp
  from this this [of 0] show "number_exponent s = Some (f, r) \<Longrightarrow> ?thesis"
    using Cons by (auto simp: number_exponent_def Let_def split: if_splits)
qed

lemma parse_number_shorter: "parse_number s = Some (lit, r) \<Longrightarrow> length r < length s"
proof -
  assume a: "parse_number s = Some (lit, r)"
  define s1 where "s1 = drop (length (if prefix ''-'' s then ''-'' else [])) s"
  define s2 where "s2 = dropWhile is_digit s1"
  from a obtain frac s3 ex where d: "takeWhile is_digit s1 \<noteq> []"
    and f: "number_fraction s2 = Some (frac, s3)" and e: "number_exponent s3 = Some (ex, r)"
    unfolding parse_number_def Let_def s1_def [symmetric] s2_def [symmetric]
    by (auto split: if_splits option.splits)
  have "length (takeWhile is_digit s1) + length s2 = length s1"
    unfolding s2_def by (metis length_append takeWhile_dropWhile_id)
  moreover have "0 < length (takeWhile is_digit s1)" using d by simp
  moreover have "length s1 \<le> length s" by (simp add: s1_def)
  ultimately have "length s2 < length s" by arith
  with number_fraction_shorter [OF f] number_exponent_shorter [OF e] show ?thesis by simp
qed

lemma skip_ws_shorter: "dropWhile json_ws s = c # cs \<Longrightarrow> length cs < length s"
  using length_dropWhile_le [of json_ws s] by simp

lemma parse_shorter:
  "(\<forall>s v r. parse_value n s = Some (v, r) \<longrightarrow> length r < length s) \<and>
   (\<forall>s vs r. parse_elements n s = Some (vs, r) \<longrightarrow> length r < length s) \<and>
   (\<forall>s ms r. parse_members n s = Some (ms, r) \<longrightarrow> length r < length s)"
proof (induction n)
  case 0
  show ?case by simp
next
  case (Suc n)
  then have ihv: "\<And>s v r. parse_value n s = Some (v, r) \<Longrightarrow> length r < length s"
    and ihe: "\<And>s vs r. parse_elements n s = Some (vs, r) \<Longrightarrow> length r < length s"
    and ihm: "\<And>s ms r. parse_members n s = Some (ms, r) \<Longrightarrow> length r < length s"
    by blast+
  have v: "length r < length s" if a: "parse_value (Suc n) s = Some (v, r)" for s v r
  proof (cases "dropWhile json_ws s")
    case Nil
    with a show ?thesis by simp
  next
    case (Cons c cs)
    have l: "length cs < length s" by (rule skip_ws_shorter [OF Cons])
    have k: "length ds < length s" if "dropWhile json_ws cs = d # ds" for d ds
      using skip_ws_shorter [OF that] l by simp
    from a Cons have "length r \<le> length cs"
      using k
      by (auto split: if_splits list.splits
          dest!: ihm ihe parse_chars_shorter parse_number_shorter skip_ws_shorter)
    with l show ?thesis by simp
  qed
  have e: "length r < length s" if a: "parse_elements (Suc n) s = Some (vs, r)" for s vs r
    using a
    by (auto split: option.splits list.splits if_splits dest!: ihv ihe skip_ws_shorter)
  have m: "length r < length s" if a: "parse_members (Suc n) s = Some (ms, r)" for s ms r
    using a
    by (auto split: option.splits list.splits if_splits
        dest!: ihv ihm skip_ws_shorter parse_chars_shorter)
  from v e m show ?case by blast
qed

lemmas parse_value_shorter = parse_shorter [THEN conjunct1, rule_format]
lemmas parse_elements_shorter = parse_shorter [THEN conjunct2, THEN conjunct1, rule_format]
lemmas parse_members_shorter = parse_shorter [THEN conjunct2, THEN conjunct2, rule_format]

lemma parse_stable:
  "(\<forall>s. 2 * length s + 1 \<le> n \<longrightarrow> parse_value (Suc n) s = parse_value n s) \<and>
   (\<forall>s. 2 * length s + 2 \<le> n \<longrightarrow> parse_elements (Suc n) s = parse_elements n s) \<and>
   (\<forall>s. 2 * length s + 1 \<le> n \<longrightarrow> parse_members (Suc n) s = parse_members n s)"
proof (induction n)
  case 0
  show ?case by simp
next
  case (Suc n)
  then have ihv: "\<And>s. 2 * length s + 1 \<le> n \<Longrightarrow> parse_value (Suc n) s = parse_value n s"
    and ihe: "\<And>s. 2 * length s + 2 \<le> n \<Longrightarrow> parse_elements (Suc n) s = parse_elements n s"
    and ihm: "\<And>s. 2 * length s + 1 \<le> n \<Longrightarrow> parse_members (Suc n) s = parse_members n s"
    by blast+
  have v: "parse_value (Suc (Suc n)) s = parse_value (Suc n) s"
    if a: "2 * length s + 1 \<le> Suc n" for s
  proof (cases "dropWhile json_ws s")
    case Nil
    show ?thesis by (simp only: parse_value.simps Nil list.case)
  next
    case (Cons c cs)
    have l: "length cs < length s" by (rule skip_ws_shorter [OF Cons])
    with a have "2 * length cs + 2 \<le> n" by simp
    then have "parse_elements (Suc n) cs = parse_elements n cs"
      and "parse_members (Suc n) cs = parse_members n cs"
      using ihe [of cs] ihm [of cs] by simp_all
    then show ?thesis
      by (simp only: parse_value.simps Cons list.case)
  qed
  have e: "parse_elements (Suc (Suc n)) s = parse_elements (Suc n) s"
    if a: "2 * length s + 2 \<le> Suc n" for s
  proof -
    from a have v': "parse_value (Suc n) s = parse_value n s" by (intro ihv) simp
    show ?thesis
    proof (cases "parse_value n s")
      case None
      show ?thesis by (simp only: parse_elements.simps v' None option.case)
    next
      case (Some p)
      obtain x r where p: "p = (x, r)" by (cases p)
      have lr: "length r < length s" using Some p by (auto dest: parse_value_shorter)
      show ?thesis
      proof (cases "dropWhile json_ws r")
        case Nil
        show ?thesis
          by (simp only: parse_elements.simps v' Some p Nil option.case list.case prod.case)
      next
        case (Cons c cs)
        have "length cs < length r" by (rule skip_ws_shorter [OF Cons])
        with lr a have "2 * length cs + 2 \<le> n" by simp
        then have "parse_elements (Suc n) cs = parse_elements n cs" by (rule ihe)
        then show ?thesis
          by (simp only: parse_elements.simps v' Some p Cons option.case list.case prod.case)
      qed
    qed
  qed
  have m: "parse_members (Suc (Suc n)) s = parse_members (Suc n) s"
    if a: "2 * length s + 1 \<le> Suc n" for s
  proof (cases "dropWhile json_ws s")
    case Nil
    show ?thesis by (simp only: parse_members.simps Nil list.case)
  next
    case c1: (Cons q cs)
    have l1: "length cs < length s" by (rule skip_ws_shorter [OF c1])
    show ?thesis
    proof (cases "parse_chars cs")
      case None
      show ?thesis by (simp only: parse_members.simps c1 None list.case option.case)
    next
      case (Some p)
      obtain k r where p: "p = (k, r)" by (cases p)
      have l2: "length r < length cs" using Some p by (auto dest: parse_chars_shorter)
      show ?thesis
      proof (cases "dropWhile json_ws r")
        case Nil
        show ?thesis
          by (simp only: parse_members.simps c1 Some p Nil list.case option.case prod.case)
      next
        case c2: (Cons c r2)
        have l3: "length r2 < length r" by (rule skip_ws_shorter [OF c2])
        from a l1 l2 l3 have "2 * length r2 + 1 \<le> n" by simp
        then have v': "parse_value (Suc n) r2 = parse_value n r2" by (rule ihv)
        show ?thesis
        proof (cases "parse_value n r2")
          case None
          show ?thesis
            by (simp only: parse_members.simps c1 Some p c2 v' None list.case option.case prod.case)
        next
          case s2: (Some p2)
          obtain x r3 where p2: "p2 = (x, r3)" by (cases p2)
          have l4: "length r3 < length r2" using s2 p2 by (auto dest: parse_value_shorter)
          show ?thesis
          proof (cases "dropWhile json_ws r3")
            case Nil
            show ?thesis
              by (simp only: parse_members.simps c1 Some p c2 v' s2 p2 Nil list.case option.case
                  prod.case)
          next
            case c3: (Cons d r4)
            have l5: "length r4 < length r3" by (rule skip_ws_shorter [OF c3])
            from a l1 l2 l3 l4 l5 have "2 * length r4 + 1 \<le> n" by simp
            then have "parse_members (Suc n) r4 = parse_members n r4" by (rule ihm)
            then show ?thesis
              by (simp only: parse_members.simps c1 Some p c2 v' s2 p2 c3 list.case option.case
                  prod.case)
          qed
        qed
      qed
    qed
  qed
  from v e m show ?case by blast
qed

lemma parse_value_fuel:
  "2 * length s + 1 \<le> n \<Longrightarrow> parse_value n s = parse_value (2 * length s + 1) s"
proof (induction n)
  case 0
  then show ?case by simp
next
  case (Suc n)
  show ?case
  proof (cases "2 * length s + 1 \<le> n")
    case True
    then have "parse_value (Suc n) s = parse_value n s"
      using parse_stable [of n] by blast
    with Suc.IH [OF True] show ?thesis by simp
  next
    case False
    with Suc.prems have "Suc n = 2 * length s + 1" by simp
    then show ?thesis by simp
  qed
qed

lemma JSON_parse_fuel:
  "2 * length s + 1 \<le> n \<Longrightarrow>
   JSON_parse s =
     (case parse_value n s of
        None \<Rightarrow> None
      | Some (v, r) \<Rightarrow> if dropWhile json_ws r = [] then Some v else None)"
  unfolding JSON_parse_def by (simp only: parse_value_fuel [of s n])

section \<open>Parsing what \<^verbatim>\<open>JSON.stringify\<close> wrote\<close>

lemma hex_val_hex_digit: "n < 16 \<Longrightarrow> hex_val (hex_digit n) = Some n"
  by (auto simp: hex_val_def hex_digit_def Let_def)

lemma hex_val_zero: "hex_val (CHR ''0'') = Some 0"
  by (simp add: hex_val_def)

lemma parse_chars_escape:
  "parse_chars (json_escape c @ t) = map_option (apfst (Cons (of_char c))) (parse_chars t)"
proof -
  consider "c = CHR 0x22" | "c = CHR 0x5C" | "c = CHR 0x08" | "c = CHR 0x0C" | "c = CHR 0x0A"
    | "c = CHR 0x0D" | "c = CHR 0x09"
    | "c \<notin> {CHR 0x22, CHR 0x5C, CHR 0x08, CHR 0x0C, CHR 0x0A, CHR 0x0D, CHR 0x09}" "(of_char c :: nat) < 32"
    | "c \<notin> {CHR 0x22, CHR 0x5C, CHR 0x08, CHR 0x0C, CHR 0x0A, CHR 0x0D, CHR 0x09}" "\<not> (of_char c :: nat) < 32"
    by auto
  then show ?thesis
  proof cases
    case 8
    let ?n = "of_char c :: nat"
    have a: "?n div 16 < 16" "?n mod 16 < 16" using 8(2) by auto
    have b: "16 * (?n div 16) + ?n mod 16 = ?n" by simp
    show ?thesis using 8 a b
      by (simp add: json_escape_def hex_val_hex_digit hex_val_zero)
  next
    case 9
    then show ?thesis by (simp add: json_escape_def)
  qed (simp_all add: json_escape_def json_unescape_def)
qed

lemma parse_chars_quote:
  "parse_chars (concat (map json_escape s) @ CHR 0x22 # t) = Some (map of_char s, t)"
  by (induction s) (simp_all add: parse_chars_escape)

lemma parse_value_string:
  "parse_value (Suc n) (JSON_quote s @ t) = Some (JStr (map of_char s), t)"
  by (simp add: JSON_quote_def json_ws_def parse_chars_quote)

lemma parse_elements_strings:
  "xs \<noteq> [] \<Longrightarrow> length xs < n \<Longrightarrow>
   parse_elements n (join_commas (map JSON_quote xs) @ CHR '']'' # t)
     = Some (map (\<lambda>x. JStr (map of_char x)) xs, t)"
proof (induction xs arbitrary: n)
  case Nil
  then show ?case by simp
next
  case (Cons x xs)
  from Cons.prems obtain m where n: "n = Suc (Suc m)" "length xs \<le> m"
    by (cases n; cases "n - 1"; auto)
  have dw: "\<not> json_ws (CHR '']'')" "\<not> json_ws (CHR '','')"
    by (auto simp: json_ws_def)
  show ?case
  proof (cases xs)
    case Nil
    have "parse_elements (Suc (Suc m)) (JSON_quote x @ CHR '']'' # t)
          = Some ([JStr (map of_char x)], t)"
      unfolding parse_elements.simps parse_value_string by (simp add: dw)
    then show ?thesis using n Nil by simp
  next
    case (Cons y ys)
    have ih: "parse_elements (Suc m) (join_commas (map JSON_quote xs) @ CHR '']'' # t)
              = Some (map (\<lambda>x. JStr (map of_char x)) xs, t)"
      using Cons.IH [of "Suc m"] n Cons by simp
    have "parse_elements (Suc (Suc m))
            (JSON_quote x @ CHR '','' # join_commas (map JSON_quote xs) @ CHR '']'' # t)
          = Some (JStr (map of_char x) # map (\<lambda>x. JStr (map of_char x)) xs, t)"
      unfolding parse_elements.simps(2) [of "Suc m"] parse_value_string by (simp add: dw ih del: parse_elements.simps)
    then show ?thesis using n Cons by simp
  qed
qed

lemma json_ws_simps:
  "\<not> json_ws (CHR '']'')" "\<not> json_ws (CHR '','')" "\<not> json_ws (CHR ''}'')"
  "\<not> json_ws (CHR '':'')" "\<not> json_ws (CHR 0x22)" "\<not> json_ws (CHR ''['')"
  "\<not> json_ws (CHR ''{'')" "\<not> json_ws (CHR ''t'')" "\<not> json_ws (CHR ''f'')"
  by (auto simp: json_ws_def)

lemma parse_value_bool:
  "parse_value (Suc n) ((if b then ''true'' else ''false'') @ u) = Some (JBool b, u)"
  by (cases b) (simp_all add: json_ws_simps)

lemma parse_value_strings:
  assumes "length xs < m"
  shows "parse_value (Suc m) (CHR ''['' # join_commas (map JSON_quote xs) @ CHR '']'' # u)
         = Some (JArr (map (\<lambda>x. JStr (map of_char x)) xs), u)"
proof (cases xs)
  case Nil
  then show ?thesis by (simp add: json_ws_simps)
next
  case (Cons x ys)
  obtain r where r: "join_commas (map JSON_quote xs) = CHR 0x22 # r"
    using Cons by (cases ys) (simp_all add: JSON_quote_def)
  have "parse_elements m (join_commas (map JSON_quote xs) @ CHR '']'' # u)
        = Some (map (\<lambda>x. JStr (map of_char x)) xs, u)"
    using parse_elements_strings [of xs m u] assms Cons by simp
  then show ?thesis
    unfolding parse_value.simps by (simp add: r json_ws_simps)
qed

lemma parse_members_key:
  "parse_members (Suc n) (JSON_quote k @ CHR '':'' # r) =
     (case parse_value n r of
        None \<Rightarrow> None
      | Some (v, r3) \<Rightarrow>
          (case dropWhile json_ws r3 of
             [] \<Rightarrow> None
           | d # r4 \<Rightarrow>
               if d = CHR '','' then
                 map_option (apfst (Cons (map of_char k, v))) (parse_members n r4)
               else if d = CHR ''}'' then Some ([(map of_char k, v)], r4)
               else None))"
  unfolding parse_members.simps
  by (simp add: JSON_quote_def parse_chars_quote json_ws_simps)

lemma parse_value_decision:
  assumes "length (categories d) < m"
  shows "parse_value (Suc (Suc (Suc (Suc m)))) (JSON_stringify (decision_json d) @ t)
         = Some (wide (decision_json d), t)"
proof -
  obtain k where m: "m = Suc k" using assms by (cases m) auto
  let ?ts = "JSON_quote ''timestamp'' @ CHR '':'' # JSON_quote (timestamp d) @ CHR ''}'' # t"
  let ?cs = "JSON_quote ''categories'' @ CHR '':'' # CHR ''['' #
             join_commas (map JSON_quote (categories d)) @ CHR '']'' # CHR '','' # ?ts"
  let ?ac = "JSON_quote ''accepted'' @ CHR '':'' #
             (if accepted d then ''true'' else ''false'') @ CHR '','' # ?cs"
  have 0: "parse_value m (JSON_quote (timestamp d) @ u)
           = Some (JStr (map of_char (timestamp d)), u)" for u
    unfolding m by (rule parse_value_string)
  have 2: "parse_members (Suc (Suc m)) ?cs =
           Some ([(map of_char ''categories'',
                   JArr (map (\<lambda>x. JStr (map of_char x)) (categories d))),
                  (map of_char ''timestamp'', JStr (map of_char (timestamp d)))], t)"
    by (simp add: parse_members_key parse_value_strings [OF assms] json_ws_simps 0 del: parse_value.simps parse_members.simps parse_elements.simps)
  have 3: "parse_members (Suc (Suc (Suc m))) ?ac = Some (snd_members, t)"
    if "snd_members =
          [(map of_char ''accepted'', JBool (accepted d)),
           (map of_char ''categories'', JArr (map (\<lambda>x. JStr (map of_char x)) (categories d))),
           (map of_char ''timestamp'', JStr (map of_char (timestamp d)))]" for snd_members
    by (simp add: parse_members_key parse_value_bool that parse_value_strings [OF assms] json_ws_simps 0 del: parse_value.simps parse_members.simps parse_elements.simps)
  have s: "JSON_stringify (decision_json d) @ t = CHR ''{'' # ?ac"
    by (simp add: decision_json_def comp_def)
  obtain q where q: "?ac = CHR 0x22 # q" by (simp add: JSON_quote_def)
  show ?thesis
    unfolding s parse_value.simps using 3 [OF refl]
    by (simp add: q json_ws_simps decision_json_def wide_def comp_def)
qed

lemma length_join_quotes: "length xs \<le> length (join_commas (map JSON_quote xs))"
  by (induction xs rule: join_commas.induct) (simp_all add: JSON_quote_def)

lemma JSON_parse_decision:
  "JSON_parse (JSON_stringify (decision_json d)) = Some (wide (decision_json d))"
proof -
  let ?s = "JSON_stringify (decision_json d)"
  have "length (categories d) \<le> length ?s"
    using length_join_quotes [of "categories d"] by (simp add: decision_json_def comp_def)
  moreover have "4 \<le> length ?s"
    by (simp add: decision_json_def JSON_quote_def)
  ultimately have "2 * length ?s + 1 = Suc (Suc (Suc (Suc (2 * length ?s - 3))))"
    "length (categories d) < 2 * length ?s - 3"
    by linarith+
  then obtain m where m: "2 * length ?s + 1 = Suc (Suc (Suc (Suc m)))" "length (categories d) < m"
    by blast
  show ?thesis
    unfolding JSON_parse_def m(1) using parse_value_decision [OF m(2), of "[]"] by simp
qed

section \<open>Lemmas on the methods\<close>

lemma assign_fields:
  "config (document_cookie_assign s w) = config w"
  "container (document_cookie_assign s w) = container w"
  "now (document_cookie_assign s w) = now w"
  "timers (document_cookie_assign s w) = timers w"
  "events (document_cookie_assign s w) = events w"
  "style (document_cookie_assign s w) = style w"
  "classList (document_cookie_assign s w) = classList w"
  "warnings (document_cookie_assign s w) = warnings w"
  "uncaught (document_cookie_assign s w) = uncaught w"
  "overlay (document_cookie_assign s w) = overlay w"
  "listeners (document_cookie_assign s w) = listeners w"
  "cookie_date (document_cookie_assign s w) = cookie_date w"
  "cookie_writes (document_cookie_assign s w) = cookie_writes w @ [s]"
  by (simp_all add: document_cookie_assign_def Let_def)

lemma push_checked:
  "foldl (\<lambda>cats c. if P c then cats @ [f c] else cats) acc xs = acc @ map f (filter P xs)"
  by (induction xs arbitrary: acc) simp_all

lemma getSelectedCategories_found:
  "container w = Some el \<Longrightarrow> selector_ok w (''.'' @ categoryCheckboxClass (config w)) \<Longrightarrow>
   getSelectedCategories w =
     Returns (map (input_value w) (filter (checked w) (descendants w el (''.'' @ categoryCheckboxClass (config w)))))"
  by (simp add: getSelectedCategories_def element_querySelectorAll_def push_checked)

lemma accept_invalid:
  "container w = Some el \<Longrightarrow> \<not> selector_ok w (''.'' @ categoryCheckboxClass (config w)) \<Longrightarrow>
   accept w = (Throws SyntaxError, w)"
  by (simp add: accept_def getSelectedCategories_def element_querySelectorAll_def)

lemma fire_container: "container (fire act w) = container w"
  by (simp add: fire_def set_style_def classList_add_def split: option.splits timer_action.splits)

lemma fire_all_container: "container (foldl (\<lambda>v p. fire (snd p) v) w ps) = container w"
  by (induction ps arbitrary: w) (simp_all add: fire_container)

lemma fire_display:
  "container w = Some el \<Longrightarrow>
   style (fire act w) el ''display'' = (if act = DisplayNone then Some ''none'' else style w el ''display'')"
  by (simp add: fire_def set_style_def classList_add_def split: timer_action.splits)

lemma fire_all_display:
  "container w = Some el \<Longrightarrow>
   style (foldl (\<lambda>v p. fire (snd p) v) w ps) el ''display'' =
     (if DisplayNone \<in> snd ` set ps then Some ''none'' else style w el ''display'')"
proof (induction ps arbitrary: w)
  case Nil
  then show ?case by simp
next
  case (Cons p ps)
  have "container (fire (snd p) w) = Some el" using Cons.prems by (simp add: fire_container)
  from Cons.IH [OF this] Cons.prems show ?case
    by (auto simp: fire_display)
qed

lemma settle_display:
  "container w = Some el \<Longrightarrow>
   style (settle w) el ''display'' =
     (if DisplayNone \<in> snd ` set (timers w) then Some ''none'' else style w el ''display'')"
  using fire_all_display [of "w\<lparr>timers := []\<rparr>" el "sort_key fst (timers w)"]
  by (simp add: settle_def)

lemma hide_found:
  "container w = Some el \<Longrightarrow>
   hide w = (Returns (), triggerEvent ''banner-hidden'' NoDetail
                (setTimeout DisplayNone 300 (classList_remove el ''is-visible'' w)))"
  by (simp add: hide_def)


lemma accept_found:
  assumes "container w = Some el" "selector_ok w (''.'' @ categoryCheckboxClass (config w))"
  shows "accept w =
     (let cats = map (input_value w) (filter (checked w) (descendants w el (''.'' @ categoryCheckboxClass (config w))));
          consentData = \<lparr> accepted = True,
                          categories = (if cats = [] then [''necessary'', ''analytics'', ''marketing''] else cats),
                          timestamp = toISOString w (now w) \<rparr>
      in (Returns (),
          triggerEvent ''consent-given'' (DecisionDetail consentData)
            (triggerEvent ''banner-hidden'' NoDetail
              (setTimeout DisplayNone 300
                (classList_remove el ''is-visible''
                  (setCookie (cookieName (config w)) (JSON_stringify (decision_json consentData))
                     (cookieExpiry (config w)) w))))))"
  using assms
  by (simp add: accept_def getSelectedCategories_found hide_def setCookie_def assign_fields Let_def
      del: JSON_stringify.simps)

lemma reject_found:
  assumes "container w = Some el"
  shows "reject w =
     (let consentData = \<lparr> accepted = False, categories = [''necessary''],
                          timestamp = toISOString w (now w) \<rparr>
      in (Returns (),
          triggerEvent ''consent-rejected'' (DecisionDetail consentData)
            (triggerEvent ''banner-hidden'' NoDetail
              (setTimeout DisplayNone 300
                (classList_remove el ''is-visible''
                  (setCookie (cookieName (config w)) (JSON_stringify (decision_json consentData))
                     (cookieExpiry (config w)) w))))))"
  using assms
  by (simp add: reject_def hide_def setCookie_def assign_fields Let_def del: JSON_stringify.simps)

lemma decision_json_inject: "wide (decision_json d) = wide (decision_json d') \<Longrightarrow> d = d'"
  by (cases d, cases d')
    (simp add: decision_json_def wide_def comp_def inj_map_eq_map inj_on_def)

lemma stringify_decision_inject:
  "JSON_stringify (decision_json d) = JSON_stringify (decision_json d') \<Longrightarrow> d = d'"
proof -
  assume e: "JSON_stringify (decision_json d) = JSON_stringify (decision_json d')"
  have "JSON_parse (JSON_stringify (decision_json d)) = JSON_parse (JSON_stringify (decision_json d'))"
    by (simp only: e)
  then have "wide (decision_json d) = wide (decision_json d')"
    by (simp only: JSON_parse_decision option.inject)
  then show ?thesis by (rule decision_json_inject)
qed

lemma not_written_same: "\<not> written w w d"
  by (simp add: written_def)

lemma written_unique: "written w w' d \<Longrightarrow> written w w' d' \<Longrightarrow> d = d'"
proof -
  assume "written w w' d" "written w w' d'"
  then have "JSON_stringify (decision_json d) = JSON_stringify (decision_json d')"
    unfolding written_def by (simp del: JSON_stringify.simps)
  then show ?thesis by (rule stringify_decision_inject)
qed

lemma accept_written:
  assumes "container w = Some el" "selector_ok w (''.'' @ categoryCheckboxClass (config w))"
  shows "written w (snd (accept w))
           \<lparr> accepted = True,
             categories =
               (if map (input_value w) (filter (checked w)
                     (descendants w el (''.'' @ categoryCheckboxClass (config w)))) = []
                then [''necessary'', ''analytics'', ''marketing'']
                else map (input_value w) (filter (checked w)
                     (descendants w el (''.'' @ categoryCheckboxClass (config w))))),
             timestamp = toISOString w (now w) \<rparr>"
  unfolding accept_found [OF assms] Let_def
  by (simp add: written_def triggerEvent_def setTimeout_def classList_remove_def
      setCookie_def assign_fields Let_def del: JSON_stringify.simps)

lemma reject_written:
  assumes "container w = Some el"
  shows "written w (snd (reject w))
           \<lparr> accepted = False, categories = [''necessary''], timestamp = toISOString w (now w) \<rparr>"
  unfolding reject_found [OF assms] Let_def
  by (simp add: written_def triggerEvent_def setTimeout_def classList_remove_def
      setCookie_def assign_fields Let_def del: JSON_stringify.simps)


section \<open>Lemmas on the cookie store\<close>

lemma takeWhile_until: "c \<notin> set a \<Longrightarrow> takeWhile (\<lambda>x. x \<noteq> c) (a @ c # b) = a"
  by (induction a) auto

lemma dropWhile_until: "c \<notin> set a \<Longrightarrow> dropWhile (\<lambda>x. x \<noteq> c) (a @ c # b) = c # b"
  by (induction a) auto

lemma cookie_trim_id:
  "s \<noteq> [] \<Longrightarrow> \<not> cookie_ws (hd s) \<Longrightarrow> \<not> cookie_ws (last s) \<Longrightarrow> cookie_trim s = s"
proof -
  assume a: "s \<noteq> []" "\<not> cookie_ws (hd s)" "\<not> cookie_ws (last s)"
  then have 1: "dropWhile cookie_ws s = s" by (cases s) auto
  have "rev s \<noteq> []" "\<not> cookie_ws (hd (rev s))" using a by (simp_all add: hd_rev)
  then have 2: "dropWhile cookie_ws (rev s) = rev s" by (cases "rev s") auto
  show ?thesis by (simp add: cookie_trim_def 1 2)
qed

lemma cookie_trim_token: "cookie_token n \<Longrightarrow> cookie_trim n = n"
  by (rule cookie_trim_id) (auto simp: cookie_token_def)

lemma set_cookie_trim: "set (cookie_trim s) \<subseteq> set s"
  by (auto simp: cookie_trim_def dest!: set_dropWhileD)

lemma cookie_trim_hd: "cookie_trim s \<noteq> [] \<Longrightarrow> \<not> cookie_ws (hd (cookie_trim s))"
proof -
  assume a: "cookie_trim s \<noteq> []"
  let ?t = "dropWhile cookie_ws s"
  have t: "?t \<noteq> []" using a by (auto simp: cookie_trim_def dest: set_dropWhileD)
  then have h: "\<not> cookie_ws (hd ?t)" by (rule hd_dropWhile)
  have "rev ?t = takeWhile cookie_ws (rev ?t) @ dropWhile cookie_ws (rev ?t)" by simp
  then have "?t = rev (dropWhile cookie_ws (rev ?t)) @ rev (takeWhile cookie_ws (rev ?t))"
    by (metis rev_append rev_rev_ident)
  then obtain u where u: "?t = cookie_trim s @ u"
    unfolding cookie_trim_def by blast
  then have "hd ?t = hd (cookie_trim s)" using a by (metis hd_append2)
  with h show ?thesis by simp
qed

lemma attrs_of_setCookie:
  "CHR '';'' \<notin> set u \<Longrightarrow>
   js_split (CHR '';'') (''expires='' @ u @ '';path=/;SameSite=Strict'')
     = [''expires='' @ u, ''path=/'', ''SameSite=Strict'']"
proof -
  assume a: "CHR '';'' \<notin> set u"
  then have "CHR '';'' \<notin> set (''expires='' @ u)" by simp
  from js_split_append [OF this, of "''path=/;SameSite=Strict''"]
  show ?thesis by simp
qed

lemma expiry_of_setCookie:
  "foldl (attr_expiry pd) None [''expires='' @ u, ''path=/'', ''SameSite=Strict'']
     = pd (cookie_trim u)"
  by (simp add: attr_expiry_def cookie_trim_def cookie_ws_def lower_char_def split: option.splits)

lemma assign_setCookie:
  assumes "cookie_token n" "CHR '';'' \<notin> set v" "CHR '';'' \<notin> set u"
  shows "jar (document_cookie_assign
                (n @ ''='' @ v @ '';'' @ (''expires='' @ u) @ '';path=/;SameSite=Strict'') w)
         = filter (live (now w))
             (store_cookie \<lparr>c_name = n, c_value = cookie_trim v,
                            c_expires = cookie_date w (cookie_trim u)\<rparr> (jar w))"
proof -
  let ?rest = "''expires='' @ u @ '';path=/;SameSite=Strict''"
  let ?str = "(n @ CHR ''='' # v) @ CHR '';'' # ?rest"
  have n: "CHR '';'' \<notin> set n" "CHR ''='' \<notin> set n" "n \<noteq> []"
    using assms(1) by (auto simp: cookie_token_def)
  have p: "CHR '';'' \<notin> set (n @ CHR ''='' # v)" using n assms(2) by simp
  have 1: "takeWhile (\<lambda>c. c \<noteq> CHR '';'') ?str = n @ CHR ''='' # v"
    by (rule takeWhile_until [OF p])
  have 2: "drop 1 (dropWhile (\<lambda>c. c \<noteq> CHR '';'') ?str) = ?rest"
    unfolding dropWhile_until [OF p] by simp
  have 3: "takeWhile (\<lambda>c. c \<noteq> CHR ''='') (n @ CHR ''='' # v) = n"
    by (rule takeWhile_until [OF n(2)])
  have 4: "drop 1 (dropWhile (\<lambda>c. c \<noteq> CHR ''='') (n @ CHR ''='' # v)) = v"
    unfolding dropWhile_until [OF n(2)] by simp
  have 5: "n @ ''='' @ v @ '';'' @ (''expires='' @ u) @ '';path=/;SameSite=Strict'' = ?str"
    by simp
  show ?thesis
    unfolding 5 document_cookie_assign_def Let_def 1 2 3 4
      attrs_of_setCookie [OF assms(3)] expiry_of_setCookie cookie_trim_token [OF assms(1)]
    using n by simp
qed

lemma skip_spaces_name:
  "\<not> prefix '' '' a \<Longrightarrow> skip_spaces (a @ CHR ''='' # b) = a @ CHR ''='' # b"
  by (cases a) auto

lemma prefix_name_eq:
  assumes "CHR ''='' \<notin> set a" "CHR ''='' \<notin> set n"
  shows "prefix (n @ ''='') (a @ CHR ''='' # b) \<longleftrightarrow> a = n"
proof
  assume "prefix (n @ ''='') (a @ CHR ''='' # b)"
  then obtain r where "a @ CHR ''='' # b = n @ CHR ''='' # r"
    by (auto simp: prefix_def)
  then have "takeWhile (\<lambda>x. x \<noteq> CHR ''='') (a @ CHR ''='' # b)
             = takeWhile (\<lambda>x. x \<noteq> CHR ''='') (n @ CHR ''='' # r)" by simp
  then show "a = n"
    unfolding takeWhile_until [OF assms(1)] takeWhile_until [OF assms(2)] .
next
  assume "a = n"
  then show "prefix (n @ ''='') (a @ CHR ''='' # b)" by simp
qed

lemma getCookie_loop_space:
  "getCookie_loop nameEQ (js_split (CHR '';'') (CHR '' '' # x))
   = getCookie_loop nameEQ (js_split (CHR '';'') x)"
  by (cases "js_split (CHR '';'') x") (simp_all add: js_split_nonempty)

lemma getCookie_loop_piece:
  assumes "CHR ''='' \<notin> set a" "\<not> prefix '' '' a" "CHR ''='' \<notin> set n"
  shows "getCookie_loop (n @ ''='') ((a @ CHR ''='' # b) # ps)
         = (if a = n then Some b else getCookie_loop (n @ ''='') ps)"
  using prefix_name_eq [OF assms(1,3), of b]
  by (simp add: skip_spaces_name [OF assms(2)] indexOf_zero substring_def Let_def)

lemma getCookie_loop_jar:
  assumes "jar_ok cs" "CHR ''='' \<notin> set n" "n \<noteq> []"
  shows "getCookie_loop (n @ ''='') (js_split (CHR '';'') (cookie_string cs))
         = map_option c_value (find (\<lambda>c. c_name c = n) cs)"
  using assms(1)
proof (induction cs rule: cookie_string.induct)
  case 1
  show ?case using assms(3) by (simp add: indexOf_zero)
next
  case (2 c)
  then have c: "CHR ''='' \<notin> set (c_name c)" "\<not> prefix '' '' (c_name c)"
    "CHR '';'' \<notin> set (c_name c @ CHR ''='' # c_value c)"
    by (auto simp: jar_ok_def)
  show ?case
    unfolding cookie_string.simps js_split_no_sep [OF c(3)]
      getCookie_loop_piece [OF c(1,2) assms(2)]
    by simp
next
  case (3 c d ds)
  then have c: "CHR ''='' \<notin> set (c_name c)" "\<not> prefix '' '' (c_name c)"
    "CHR '';'' \<notin> set (c_name c @ CHR ''='' # c_value c)"
    and ok: "jar_ok (d # ds)"
    by (auto simp: jar_ok_def)
  have s: "cookie_string (c # d # ds)
           = (c_name c @ CHR ''='' # c_value c) @ CHR '';'' # CHR '' '' # cookie_string (d # ds)"
    by simp
  show ?case
    unfolding s js_split_append [OF c(3)] getCookie_loop_piece [OF c(1,2) assms(2)]
      getCookie_loop_space "3.IH" [OF ok]
    by simp
qed

lemma find_store_cookie:
  "live t c \<Longrightarrow>
   find (\<lambda>x. c_name x = c_name c) (filter (live t) (store_cookie c cs)) = Some c"
  by (induction cs) auto

lemma jar_ok_store:
  assumes "jar_ok cs" "jar_ok [c]"
  shows "jar_ok (filter P (store_cookie c cs))"
proof -
  have "set (store_cookie c cs) \<subseteq> insert c (set cs)"
    by (induction cs) auto
  then show ?thesis using assms by (auto simp: jar_ok_def)
qed

lemma hex_digit_not_semicolon: "k < 16 \<Longrightarrow> hex_digit k \<noteq> CHR '';''"
proof
  assume k: "k < 16" and "hex_digit k = CHR '';''"
  then have "(of_char (hex_digit k) :: nat) = 59" by simp
  then show False using k by (simp add: hex_digit_def split: if_splits)
qed

lemma json_escape_no_semicolon: "c \<noteq> CHR '';'' \<Longrightarrow> CHR '';'' \<notin> set (json_escape c)"
proof -
  assume c: "c \<noteq> CHR '';''"
  have "(of_char c :: nat) < 32 \<Longrightarrow> hex_digit ((of_char c :: nat) div 16) \<noteq> CHR '';''"
    by (rule hex_digit_not_semicolon) simp
  moreover have "hex_digit ((of_char c :: nat) mod 16) \<noteq> CHR '';''"
    by (rule hex_digit_not_semicolon) simp
  ultimately show ?thesis using c by (auto simp: json_escape_def)
qed

lemma JSON_quote_no_semicolon: "CHR '';'' \<notin> set s \<Longrightarrow> CHR '';'' \<notin> set (JSON_quote s)"
  by (induction s) (auto simp: JSON_quote_def json_escape_no_semicolon)


lemma join_commas_no_semicolon:
  "\<forall>x \<in> set xs. CHR '';'' \<notin> set x \<Longrightarrow> CHR '';'' \<notin> set (join_commas xs)"
  by (induction xs rule: join_commas.induct) auto

lemma decision_no_semicolon:
  assumes "\<forall>c \<in> set (categories d). CHR '';'' \<notin> set c" "CHR '';'' \<notin> set (timestamp d)"
  shows "CHR '';'' \<notin> set (JSON_stringify (decision_json d))"
proof -
  have "CHR '';'' \<notin> set (join_commas (map JSON_quote (categories d)))"
    by (rule join_commas_no_semicolon) (use assms(1) in \<open>auto simp: JSON_quote_no_semicolon\<close>)
  moreover have "CHR '';'' \<notin> set (JSON_quote (timestamp d))"
    by (rule JSON_quote_no_semicolon [OF assms(2)])
  moreover have "CHR '';'' \<notin> set (JSON_quote ''accepted'')" "CHR '';'' \<notin> set (JSON_quote ''categories'')"
    "CHR '';'' \<notin> set (JSON_quote ''timestamp'')"
    by (simp_all add: JSON_quote_no_semicolon)
  ultimately show ?thesis
    by (simp add: decision_json_def comp_def)
qed

lemma decision_trimmed: "cookie_trim (JSON_stringify (decision_json d)) = JSON_stringify (decision_json d)"
  by (rule cookie_trim_id) (simp_all add: decision_json_def cookie_ws_def)

lemma decision_not_empty: "JSON_stringify (decision_json d) \<noteq> []"
  by (simp add: decision_json_def)


lemma token_facts:
  assumes "cookie_token n"
  shows "CHR ''='' \<notin> set n" "n \<noteq> []" "CHR '';'' \<notin> set n" "\<not> prefix '' '' n"
proof -
  show "CHR ''='' \<notin> set n" "n \<noteq> []" "CHR '';'' \<notin> set n"
    using assms unfolding cookie_token_def by blast+
  show "\<not> prefix '' '' n"
    using assms by (cases n) (auto simp: cookie_token_def cookie_ws_def)
qed


lemma example_facts:
  "jar example_page = []" "now example_page = 1705314600000"
  "cookieName (config example_page) = ''cookie_consent''"
  "cookieExpiry (config example_page) = 365"
  "toUTCString example_page 1736850600000 = ''Tue, 14 Jan 2025 10:30:00 GMT''"
  "cookie_date example_page ''Tue, 14 Jan 2025 10:30:00 GMT'' = Some 1736850600000"
  by (simp_all add: example_page_def default_config_def)

section \<open>Lemmas on reading the record and on \<^verbatim>\<open>init\<close>\<close>

lemma jar_ok_filter: "jar_ok cs \<Longrightarrow> jar_ok (filter P cs)"
  by (simp add: jar_ok_def)

lemma getCookie_find:
  assumes "jar_ok (jar w)" "cookie_token n"
  shows "getCookie n w
         = map_option c_value (find (\<lambda>c. c_name c = n) (filter (live (now w)) (jar w)))"
  unfolding getCookie_def document_cookie_def
  by (rule getCookie_loop_jar [OF jar_ok_filter [OF assms(1)] token_facts(1,2) [OF assms(2)]])

lemma getCookie_same_store:
  "jar w' = jar w \<Longrightarrow> now w' = now w \<Longrightarrow> getCookie n w' = getCookie n w"
  by (simp add: getCookie_def document_cookie_def)

lemma JSON_parse_abc: "JSON_parse ''abc'' = None"
  by code_simp

lemma untouched_refl: "untouched w w"
  by (simp add: untouched_def)

lemma untouched_trans: "untouched a b \<Longrightarrow> untouched b c \<Longrightarrow> untouched a c"
  by (simp add: untouched_def)

lemma untouched_set_style: "k \<noteq> ''display'' \<Longrightarrow> untouched w (set_style el k v w)"
  by (simp add: untouched_def set_style_def)

lemma untouched_foldl_set_style:
  "\<forall>kv \<in> set kvs. fst kv \<noteq> ''display'' \<Longrightarrow>
   untouched w (foldl (\<lambda>v kv. set_style el (fst kv) (snd kv) v) w kvs)"
proof (induction kvs arbitrary: w)
  case Nil
  show ?case by (simp add: untouched_refl)
next
  case (Cons kv kvs)
  have "untouched w (set_style el (fst kv) (snd kv) w)"
    using Cons.prems by (simp add: untouched_set_style)
  moreover have "untouched (set_style el (fst kv) (snd kv) w)
      (foldl (\<lambda>v kv. set_style el (fst kv) (snd kv) v) (set_style el (fst kv) (snd kv) w) kvs)"
    using Cons.prems by (intro Cons.IH) simp
  ultimately show ?case by (auto intro: untouched_trans)
qed

lemma positions_keys:
  "st \<in> snd ` set positions \<Longrightarrow> \<forall>kv \<in> set st. fst kv \<noteq> ''display''"
  by (auto simp: positions_def bottom_center_def)

lemma positionStyles_keys: "\<forall>kv \<in> set (positionStyles pos). fst kv \<noteq> ''display''"
proof (cases "map_of positions pos")
  case None
  then show ?thesis by (simp add: positionStyles_def bottom_center_def)
next
  case (Some st)
  then have "st \<in> snd ` set positions" by (force dest: map_of_SomeD)
  from positions_keys [OF this] Some show ?thesis by (simp add: positionStyles_def)
qed

lemma applyPositioning_untouched:
  assumes "container w = Some el" "position w = Some pos" "animation w = Some anim"
    "width w = Some wd"
  shows "fst (applyPositioning w) = Returns ()" "untouched w (snd (applyPositioning w))"
proof -
  let ?w1 = "set_style el ''zIndex'' ''9999'' (set_style el ''position'' ''fixed'' w)"
  let ?w2 = "foldl (\<lambda>v kv. set_style el (fst kv) (snd kv) v) ?w1 (positionStyles pos)"
  have 1: "untouched w ?w1"
    by (simp add: untouched_def set_style_def)
  have 2: "untouched w ?w2"
    by (rule untouched_trans [OF 1 untouched_foldl_set_style [OF positionStyles_keys]])
  have 3: "untouched w (set_style el ''width'' ''auto''
             (set_style el ''right'' ''0'' (set_style el ''left'' ''0'' ?w2)))"
    using 2 by (simp add: untouched_def set_style_def)
  have 4: "untouched w (set_style el ''width'' v ?w2)" for v
    using 2 by (simp add: untouched_def set_style_def)
  have 5: "untouched w (set_style el ''maxWidth'' v' (set_style el ''width'' v ?w2))" for v v'
    using 2 by (simp add: untouched_def set_style_def)
  have 6: "untouched w (set_style el ''maxWidth'' v' ?w2)" for v'
    using 2 by (simp add: untouched_def set_style_def)
  have t: "untouched w a \<Longrightarrow> untouched w (a\<lparr>attributes := at\<rparr>)" for a at
    by (simp add: untouched_def)
  define w3 where "w3 =
     (if wd = ''full'' \<and> pos \<notin> set [''top-center'', ''bottom-center'', ''center''] then
        (if str_includes pos ''top'' then set_style el ''width'' ''auto''
             (set_style el ''right'' ''0'' (set_style el ''left'' ''0'' ?w2))
         else if str_includes pos ''bottom'' then set_style el ''width'' ''auto''
             (set_style el ''right'' ''0'' (set_style el ''left'' ''0'' ?w2))
         else ?w2)
      else if wd \<noteq> ''auto'' then
        (let w2a = (case width_or_full wd of None \<Rightarrow> ?w2 | Some v \<Rightarrow> set_style el ''width'' v ?w2)
         in if wd \<noteq> ''full'' then
              (case map_of widths wd of None \<Rightarrow> w2a | Some v \<Rightarrow> set_style el ''maxWidth'' v w2a)
            else w2a)
      else ?w2)"
  have u: "untouched w w3"
    unfolding w3_def Let_def using 2 3 4 5 6 by (auto split: option.splits)
  have e: "applyPositioning w =
     (Returns (), w3\<lparr>attributes := (attributes w3)
                     (el := (attributes w3 el)(''data-cookie-consent-animation'' := Some anim))\<rparr>)"
    unfolding applyPositioning_def w3_def using assms by (simp add: Let_def)
  show "fst (applyPositioning w) = Returns ()" by (simp add: e)
  show "untouched w (snd (applyPositioning w))" unfolding e using t [OF u] by simp
qed


lemma bindEvents_untouched:
  assumes "container w = Some el" "list_all (selector_ok w) (button_selectors (config w))"
  shows "fst (bindEvents w) = Returns ()" "untouched w (snd (bindEvents w))"
  using assms
  by (simp_all add: bindEvents_def button_selectors_def element_querySelectorAll_def
      document_querySelectorAll_def untouched_def)

lemma bindEvents_invalid:
  assumes "container w = Some el" "\<not> list_all (selector_ok w) (button_selectors (config w))"
  shows "bindEvents w = (Throws SyntaxError, w)"
  using assms
  by (simp add: bindEvents_def button_selectors_def element_querySelectorAll_def
      document_querySelectorAll_def)

lemma render_inline_untouched: "untouched v (render_inline rows v c)"
  by (simp add: untouched_def render_inline_def classList_add_def Let_def)

lemma renderInlineCookies_foldl: "untouched v (foldl (render_inline rows) v cs)"
proof (induction cs arbitrary: v)
  case Nil
  show ?case by (simp add: untouched_refl)
next
  case (Cons c cs)
  from untouched_trans [OF render_inline_untouched Cons.IH] show ?case by simp
qed

lemma renderInlineCookies_untouched: "untouched w (snd (renderInlineCookies w))"
  by (simp add: renderInlineCookies_def document_querySelectorAll_def untouched_refl
      renderInlineCookies_foldl)

lemma renderInlineCookies_outcome:
  "fst (renderInlineCookies w) =
     (if selector_ok w (''.'' @ inlineCookiesClass (config w)) then Returns ()
      else Throws SyntaxError)"
  by (simp add: renderInlineCookies_def document_querySelectorAll_def)

lemma show_banner_found:
  "container w = Some el \<Longrightarrow>
   show_banner w = (Returns (), triggerEvent ''banner-shown'' NoDetail
                      (setTimeout AddVisible 10 (set_style el ''display'' ''block'' w)))"
  by (simp add: show_banner_def)

lemma init_found:
  assumes "selector_ok w (containerSelector (merge_config (config w) opts))"
    and "querySelector w (containerSelector (merge_config (config w) opts)) = Some el"
    and "list_all (selector_ok w) (button_selectors (merge_config (config w) opts))"
  shows "\<exists>w5. untouched (w\<lparr>config := merge_config (config w) opts, container := Some el\<rparr>) w5 \<and>
           init opts w = (case checkConsent w5 of
                            (Throws e, w6) \<Rightarrow> (Throws e, w6)
                          | (Returns c, w6) \<Rightarrow> renderInlineCookies w6)"
proof -
  let ?w2 = "w\<lparr>config := merge_config (config w) opts, container := Some el\<rparr>"
  let ?w3 = "?w2\<lparr>position :=
                    Some (attribute_or ?w2 el ''data-cookie-consent-position'' ''bottom-center''),
                  animation :=
                    Some (attribute_or ?w2 el ''data-cookie-consent-animation'' ''slide''),
                  width :=
                    Some (attribute_or ?w2 el ''data-cookie-consent-width'' ''full'')\<rparr>"
  have "fst (applyPositioning ?w3) = Returns ()" "untouched ?w3 (snd (applyPositioning ?w3))"
    by (rule applyPositioning_untouched [of ?w3 el]; simp)+
  then obtain w4 where ap: "applyPositioning ?w3 = (Returns (), w4)" and u4: "untouched ?w3 w4"
    by (cases "applyPositioning ?w3") simp
  have c4: "container w4 = Some el" "selector_ok w4 = selector_ok w"
    "config w4 = merge_config (config w) opts"
    using u4 by (simp_all add: untouched_def)
  have b4: "list_all (selector_ok w4) (button_selectors (config w4))"
    using assms(3) by (simp only: c4)
  from bindEvents_untouched [OF c4(1) b4]
  obtain w5 where be: "bindEvents w4 = (Returns (), w5)" and u5: "untouched w4 w5"
    by (cases "bindEvents w4") simp
  have "untouched ?w2 ?w3" by (simp add: untouched_def)
  then have u: "untouched ?w2 w5"
    using u4 u5 by (blast intro: untouched_trans)
  have "init opts w = (case checkConsent w5 of
                            (Throws e, w6) \<Rightarrow> (Throws e, w6)
                          | (Returns c, w6) \<Rightarrow> renderInlineCookies w6)"
    unfolding init_def Let_def using assms(1,2)
    by (simp add: document_querySelector_def ap be)
  with u show ?thesis by blast
qed

lemma init_unbound:
  assumes "selector_ok w (containerSelector (merge_config (config w) opts))"
    and "querySelector w (containerSelector (merge_config (config w) opts)) = Some el"
    and "\<not> list_all (selector_ok w) (button_selectors (merge_config (config w) opts))"
  shows "fst (init opts w) = Throws SyntaxError"
    "untouched (w\<lparr>config := merge_config (config w) opts, container := Some el\<rparr>)
       (snd (init opts w))"
proof -
  let ?w2 = "w\<lparr>config := merge_config (config w) opts, container := Some el\<rparr>"
  let ?w3 = "?w2\<lparr>position :=
                    Some (attribute_or ?w2 el ''data-cookie-consent-position'' ''bottom-center''),
                  animation :=
                    Some (attribute_or ?w2 el ''data-cookie-consent-animation'' ''slide''),
                  width :=
                    Some (attribute_or ?w2 el ''data-cookie-consent-width'' ''full'')\<rparr>"
  have "fst (applyPositioning ?w3) = Returns ()" "untouched ?w3 (snd (applyPositioning ?w3))"
    by (rule applyPositioning_untouched [of ?w3 el]; simp)+
  then obtain w4 where ap: "applyPositioning ?w3 = (Returns (), w4)" and u4: "untouched ?w3 w4"
    by (cases "applyPositioning ?w3") simp
  have c4: "container w4 = Some el" "selector_ok w4 = selector_ok w"
    "config w4 = merge_config (config w) opts"
    using u4 by (simp_all add: untouched_def)
  have b4: "\<not> list_all (selector_ok w4) (button_selectors (config w4))"
    using assms(3) by (simp add: c4)
  have be: "bindEvents w4 = (Throws SyntaxError, w4)"
    by (rule bindEvents_invalid [OF c4(1) b4])
  have i: "init opts w = (Throws SyntaxError, w4)"
    unfolding init_def Let_def using assms(1,2)
    by (simp add: document_querySelector_def ap be)
  have "untouched ?w2 ?w3" by (simp add: untouched_def)
  then have u: "untouched ?w2 w4"
    using u4 by (blast intro: untouched_trans)
  show "fst (init opts w) = Throws SyntaxError" by (simp add: i)
  show "untouched ?w2 (snd (init opts w))" using u by (simp add: i)
qed


lemma settle_display_none:
  "container w = Some el \<Longrightarrow> DisplayNone \<in> snd ` set (timers w) \<Longrightarrow>
   style (settle w) el ''display'' = Some ''none''"
  by (simp add: settle_display)

lemma corrupted_facts:
  "querySelector corrupted_page (containerSelector (merge_config (config corrupted_page) no_options))
   = Some 0"
  "cookieName (merge_config (config corrupted_page) no_options) = ''cookie_consent''"
  "events corrupted_page = []" "timers corrupted_page = []"
  "selector_ok corrupted_page
     (containerSelector (merge_config (config corrupted_page) no_options))"
  "list_all (selector_ok corrupted_page)
     (button_selectors (merge_config (config corrupted_page) no_options))"
  "selector_ok corrupted_page
     (''.'' @ inlineCookiesClass (merge_config (config corrupted_page) no_options))"
  by (simp_all add: corrupted_page_def example_page_def default_config_def merge_config_def
      no_options_def button_selectors_def default_selectors_def)

lemma corrupted_cookie: "getCookie ''cookie_consent'' corrupted_page = Some ''abc''"
  by code_simp

lemma example_init_facts:
  "querySelector example_page (containerSelector (merge_config (config example_page) no_options))
   = Some 0"
  "cookieName (merge_config (config example_page) no_options) = ''cookie_consent''"
  "events example_page = []"
  "selector_ok example_page
     (containerSelector (merge_config (config example_page) no_options))"
  "list_all (selector_ok example_page)
     (button_selectors (merge_config (config example_page) no_options))"
  "selector_ok example_page
     (''.'' @ inlineCookiesClass (merge_config (config example_page) no_options))"
  by (simp_all add: example_page_def default_config_def merge_config_def no_options_def
      button_selectors_def default_selectors_def)

lemma example_cookie: "getCookie ''cookie_consent'' example_page = None"
  by code_simp

lemma accept_written_valid:
  assumes "container w = Some el" "written w (snd (accept w)) d"
  shows "selector_ok w (''.'' @ categoryCheckboxClass (config w))"
proof (rule ccontr)
  assume "\<not> selector_ok w (''.'' @ categoryCheckboxClass (config w))"
  from accept_invalid [OF assms(1) this] assms(2) show False
    by (simp add: not_written_same)
qed

lemma setCookie_jar:
  assumes "cookie_token n"
    and "\<forall>c \<in> set (categories d). CHR '';'' \<notin> set c" "CHR '';'' \<notin> set (timestamp d)"
    and "CHR '';'' \<notin> set (toUTCString w (now w + days * 24 * 60 * 60 * 1000))"
  shows "jar (setCookie n (JSON_stringify (decision_json d)) days w) =
         filter (live (now w))
           (store_cookie
              \<lparr>c_name = n, c_value = JSON_stringify (decision_json d),
               c_expires = cookie_date w (cookie_trim
                  (toUTCString w (now w + days * 24 * 60 * 60 * 1000)))\<rparr>
              (jar w))"
proof -
  have sc: "setCookie n (JSON_stringify (decision_json d)) days w = document_cookie_assign
                (n @ ''='' @ JSON_stringify (decision_json d) @ '';'' @
                 (''expires='' @ toUTCString w (now w + days * 24 * 60 * 60 * 1000)) @
                 '';path=/;SameSite=Strict'') w"
    by (simp only: setCookie_def Let_def)
  show ?thesis
    by (simp only: sc assign_setCookie [OF assms(1) decision_no_semicolon [OF assms(2,3)] assms(4)]
        decision_trimmed)
qed

section \<open>Lemmas on \<^verbatim>\<open>viewCookies\<close>\<close>












section \<open>Lemmas on timers\<close>

lemma run_append: "run (a @ b) w = run b (run a w)"
  by (induction a w rule: run.induct) simp_all

lemma fire_timers: "timers (fire act w) = timers w"
  by (simp add: fire_def set_style_def classList_add_def split: option.splits timer_action.splits)

lemma fire_all_timers: "timers (foldl (\<lambda>v p. fire (snd p) v) w ps) = timers w"
  by (induction ps arbitrary: w) (simp_all add: fire_timers)

lemma advance_container: "container (advance d w) = container w"
  by (simp add: advance_def Let_def fire_all_container)

lemma advance_timers:
  "timers (advance d w) = filter (\<lambda>p. \<not> fst p \<le> now w + int d) (timers w)"
  by (simp add: advance_def Let_def fire_all_timers)

lemma advance_display:
  assumes "container w = Some el"
  shows "style (advance d w) el ''display'' =
     (if DisplayNone \<in> snd ` set (filter (\<lambda>p. fst p \<le> now w + int d) (timers w))
      then Some ''none'' else style w el ''display'')"
proof -
  let ?w = "w\<lparr>timers := filter (\<lambda>p. \<not> fst p \<le> now w + int d) (timers w)\<rparr>"
  have c: "container ?w = Some el" using assms by simp
  show ?thesis
    using fire_all_display [OF c, of "sort_key fst (filter (\<lambda>p. fst p \<le> now w + int d) (timers w))"]
    by (simp add: advance_def Let_def)
qed

lemma show_hide_container:
  "container (snd (show_banner w)) = container w" "container (snd (hide w)) = container w"
  by (simp_all add: show_banner_def hide_def triggerEvent_def setTimeout_def set_style_def
      classList_remove_def split: option.splits)

lemma run_container: "container (run cs w) = container w"
  by (induction cs w rule: run.induct) (simp_all add: show_hide_container advance_container)

lemma hiding_advance: "hiding el w \<Longrightarrow> hiding el (advance d w)"
  unfolding hiding_def
  by (auto simp: advance_container advance_timers advance_display)

lemma showing_advance: "showing el w \<Longrightarrow> showing el (advance d w)"
  unfolding showing_def
  by (auto simp: advance_container advance_timers advance_display)

lemma hiding_waits: "hiding el w \<Longrightarrow> hiding el (run (map Wait ds) w)"
  by (induction ds arbitrary: w) (simp_all add: hiding_advance)

lemma showing_waits: "showing el w \<Longrightarrow> showing el (run (map Wait ds) w)"
  by (induction ds arbitrary: w) (simp_all add: showing_advance)

lemma hiding_settle: "hiding el w \<Longrightarrow> style (settle w) el ''display'' = Some ''none''"
  by (auto simp: hiding_def settle_display)

lemma showing_settle: "showing el w \<Longrightarrow> style (settle w) el ''display'' = Some ''block''"
  by (auto simp: showing_def settle_display)

lemma hiding_hide: "container w = Some el \<Longrightarrow> hiding el (snd (hide w))"
  by (simp add: hiding_def hide_def triggerEvent_def setTimeout_def classList_remove_def)

lemma showing_show:
  "container w = Some el \<Longrightarrow> DisplayNone \<notin> snd ` set (timers w) \<Longrightarrow>
   showing el (snd (show_banner w))"
  by (simp add: showing_def show_banner_def triggerEvent_def setTimeout_def set_style_def)


lemma getCookie_fields:
  "getCookie n (w\<lparr>config := c, container := k, warnings := ws\<rparr>) = getCookie n w"
  by (simp add: getCookie_def document_cookie_def)

section \<open>Lemmas on what the store holds after a write\<close>

lemma setCookie_fields:
  "config (setCookie n v days w) = config w"
  "now (setCookie n v days w) = now w"
  "container (setCookie n v days w) = container w"
  "cookie_writes (setCookie n v days w) = cookie_writes w @
     [n @ ''='' @ v @ '';'' @ (''expires='' @ toUTCString w (now w + days * 24 * 60 * 60 * 1000))
        @ '';path=/;SameSite=Strict'']"
  by (simp_all only: setCookie_def Let_def assign_fields)

lemma setCookie_record:
  assumes "jar_ok (jar w)" "cookie_token (cookieName (config w))"
    and "\<forall>c \<in> set (categories d). CHR '';'' \<notin> set c" "CHR '';'' \<notin> set (timestamp d)"
    and "CHR '';'' \<notin> set (toUTCString w (expiry_time w))" "expiry_ahead w"
    and "jar w1 = jar (setCookie (cookieName (config w)) (JSON_stringify (decision_json d))
                        (cookieExpiry (config w)) w)"
    and "now w1 = now w" "config w1 = config w"
  shows "jar w1 = filter (live (now w)) (store_cookie (record_cookie w d) (jar w))"
    and "stored_record w1 = Some (record_cookie w d)"
    and "getConsent w1 = Returns (wide (decision_json d))"
proof -
  let ?n = "cookieName (config w)"
  let ?v = "JSON_stringify (decision_json d)"
  let ?c = "record_cookie w d"
  have u: "CHR '';'' \<notin> set (toUTCString w (now w + cookieExpiry (config w) * 24 * 60 * 60 * 1000))"
    using assms(5) by (simp add: expiry_time_def)
  have v: "CHR '';'' \<notin> set ?v" by (rule decision_no_semicolon [OF assms(3,4)])
  note n = token_facts [OF assms(2)]
  have c: "c_name ?c = ?n" "c_value ?c = ?v" by (simp_all add: record_cookie_def)
  show j: "jar w1 = filter (live (now w)) (store_cookie ?c (jar w))"
    unfolding assms(7) setCookie_jar [OF assms(2,3,4) u]
    by (simp only: record_cookie_def expiry_time_def)
  have l: "live (now w) ?c"
    using assms(6) by (simp add: live_def expiry_ahead_def record_cookie_def split: option.splits)
  have ok: "jar_ok (filter (live (now w)) (store_cookie ?c (jar w)))"
    by (rule jar_ok_store [OF assms(1)]) (use v n in \<open>simp add: jar_ok_def c\<close>)
  have f: "find (\<lambda>x. c_name x = ?n) (filter (live (now w)) (store_cookie ?c (jar w))) = Some ?c"
    using find_store_cookie [OF l, of "jar w"] by (simp only: c)
  show "stored_record w1 = Some ?c"
    unfolding stored_record_def j assms(8,9)
    by (simp only: filter_filter conj_absorb f)
  have "getCookie ?n w1 = Some ?v"
    unfolding getCookie_def document_cookie_def j assms(8)
    by (simp only: filter_filter conj_absorb getCookie_loop_jar [OF ok n(1,2)] f option.map c)
  then show "getConsent w1 = Returns (wide (decision_json d))"
    unfolding getConsent_def assms(9)
    by (simp only: option.case JSON_parse_decision decision_not_empty if_False)
qed

lemma reject_state:
  assumes "container w = Some el"
  shows "jar (snd (reject w)) =
           jar (setCookie (cookieName (config w))
                  (JSON_stringify (decision_json
                     \<lparr> accepted = False, categories = [''necessary''],
                       timestamp = toISOString w (now w) \<rparr>))
                  (cookieExpiry (config w)) w)"
    and "now (snd (reject w)) = now w" "config (snd (reject w)) = config w"
  unfolding reject_found [OF assms] Let_def
  by (simp_all add: triggerEvent_def setTimeout_def classList_remove_def setCookie_fields
      del: JSON_stringify.simps)

lemma accept_state:
  assumes "container w = Some el" "selector_ok w (''.'' @ categoryCheckboxClass (config w))"
  shows "jar (snd (accept w)) =
           jar (setCookie (cookieName (config w))
                  (JSON_stringify (decision_json
                     \<lparr> accepted = True,
                       categories =
                         (if map (input_value w) (filter (checked w)
                               (descendants w el (''.'' @ categoryCheckboxClass (config w)))) = []
                          then [''necessary'', ''analytics'', ''marketing'']
                          else map (input_value w) (filter (checked w)
                               (descendants w el (''.'' @ categoryCheckboxClass (config w))))),
                       timestamp = toISOString w (now w) \<rparr>))
                  (cookieExpiry (config w)) w)"
    and "now (snd (accept w)) = now w" "config (snd (accept w)) = config w"
  unfolding accept_found [OF assms] Let_def
  by (simp_all add: triggerEvent_def setTimeout_def classList_remove_def setCookie_fields
      del: JSON_stringify.simps)

lemma reject_result:
  assumes "container w = Some el"
  shows "fst (reject w) = Returns ()"
    and "hidden_by w (snd (reject w)) el"
    and "events (snd (reject w)) = events w @
           [(''cookieConsent:banner-hidden'', NoDetail),
            (''cookieConsent:consent-rejected'',
             DecisionDetail \<lparr> accepted = False, categories = [''necessary''],
                              timestamp = toISOString w (now w) \<rparr>)]"
  unfolding reject_found [OF assms] Let_def using assms
  by (simp_all add: hidden_by_def triggerEvent_def setTimeout_def classList_remove_def
      setCookie_def assign_fields settle_display Let_def del: JSON_stringify.simps)

lemma accept_result:
  assumes "container w = Some el" "selector_ok w (''.'' @ categoryCheckboxClass (config w))"
  shows "fst (accept w) = Returns ()"
    and "hidden_by w (snd (accept w)) el"
    and "events (snd (accept w)) = events w @
           [(''cookieConsent:banner-hidden'', NoDetail),
            (''cookieConsent:consent-given'',
             DecisionDetail
               \<lparr> accepted = True,
                 categories =
                   (if map (input_value w) (filter (checked w)
                         (descendants w el (''.'' @ categoryCheckboxClass (config w)))) = []
                    then [''necessary'', ''analytics'', ''marketing'']
                    else map (input_value w) (filter (checked w)
                         (descendants w el (''.'' @ categoryCheckboxClass (config w))))),
                 timestamp = toISOString w (now w) \<rparr>)]"
  unfolding accept_found [OF assms] Let_def using assms
  by (simp_all add: hidden_by_def triggerEvent_def setTimeout_def classList_remove_def
      setCookie_def assign_fields settle_display Let_def del: JSON_stringify.simps)

lemma encodeURIComponent_brace: "encodeURIComponent (CHR ''{'' # r) \<noteq> CHR ''{'' # r"
  by (simp add: encodeURIComponent_def uri_unreserved_def percent_byte_def)

lemma decision_not_encoded:
  "encodeURIComponent (JSON_stringify (decision_json d)) \<noteq> JSON_stringify (decision_json d)"
  by (simp only: decision_json_def JSON_stringify.simps encodeURIComponent_brace not_False_eq_True)

lemma hiding_show:
  "container w = Some el \<Longrightarrow> DisplayNone \<in> snd ` set (timers w) \<Longrightarrow>
   hiding el (snd (show_banner w))"
  by (auto simp: hiding_def show_banner_def triggerEvent_def setTimeout_def set_style_def)

lemma reject_ignores_inputs:
  assumes "container w = Some el"
  shows "jar (snd (reject (w\<lparr>checked := ch, input_value := iv\<rparr>))) = jar (snd (reject w))"
    and "cookie_writes (snd (reject (w\<lparr>checked := ch, input_value := iv\<rparr>)))
         = cookie_writes (snd (reject w))"
proof -
  have c: "container (w\<lparr>checked := ch, input_value := iv\<rparr>) = Some el" using assms by simp
  show "jar (snd (reject (w\<lparr>checked := ch, input_value := iv\<rparr>))) = jar (snd (reject w))"
    unfolding reject_found [OF c] reject_found [OF assms]
    by (simp add: triggerEvent_def setTimeout_def classList_remove_def setCookie_def
        document_cookie_assign_def Let_def del: JSON_stringify.simps)
  show "cookie_writes (snd (reject (w\<lparr>checked := ch, input_value := iv\<rparr>)))
         = cookie_writes (snd (reject w))"
    unfolding reject_found [OF c] reject_found [OF assms]
    by (simp add: triggerEvent_def setTimeout_def classList_remove_def setCookie_def
        assign_fields Let_def del: JSON_stringify.simps)
qed

lemma show_hide_timers:
  "container w = Some el \<Longrightarrow> timers (snd (show_banner w)) = timers w @ [(now w + 10, AddVisible)]"
  "container w = Some el \<Longrightarrow> timers (snd (hide w)) = timers w @ [(now w + 300, DisplayNone)]"
  by (simp_all add: show_banner_def hide_def triggerEvent_def setTimeout_def set_style_def
      classList_remove_def)

section \<open>The claims\<close>

text \<open>
  Claim C8, as amended. On a page where \<^verbatim>\<open>init\<close> has found the container and the category
  class gives a valid selector, \<^verbatim>\<open>accept()\<close> takes as categories the values of the checked
  category inputs, or, when none is checked, exactly \<^verbatim>\<open>necessary\<close>, \<^verbatim>\<open>analytics\<close>,
  \<^verbatim>\<open>marketing\<close>. When further the record name is a valid cookie
  name, no checked value has a \<open>;\<close> and the browser does not read the expiry date as past,
  it persists the decision with \<^verbatim>\<open>accepted\<close> true, these categories and the current time (the
  store holds it under the configured name, and \<^verbatim>\<open>getConsent\<close> returns it), hides the
  banner, and emits \<^verbatim>\<open>consent-given\<close> with that decision as payload. That the store holds
  no name or value with a \<open>;\<close> and that the dates the browser writes have none is true of
  every browser.
\<close>

theorem accept_persists_hides_notifies:
  assumes "container w = Some el" "selector_ok w (''.'' @ categoryCheckboxClass (config w))"
    and "jar_ok (jar w)" "cookie_token (cookieName (config w))"
    and "\<forall>x \<in> set (filter (checked w) (descendants w el (''.'' @ categoryCheckboxClass (config w)))).
           CHR '';'' \<notin> set (input_value w x)"
    and "CHR '';'' \<notin> set (toISOString w (now w))"
    and "CHR '';'' \<notin> set (toUTCString w (expiry_time w))" "expiry_ahead w"
  shows "let cats = map (input_value w) (filter (checked w)
                      (descendants w el (''.'' @ categoryCheckboxClass (config w))));
             d = \<lparr> accepted = True,
                   categories = (if cats = [] then [''necessary'', ''analytics'', ''marketing''] else cats),
                   timestamp = toISOString w (now w) \<rparr>;
             w' = snd (accept w)
         in fst (accept w) = Returns () \<and> persisted w w' d \<and>
            stored_record w' = Some (record_cookie w d) \<and>
            getConsent w' = Returns (wide (decision_json d)) \<and> hidden_by w w' el \<and>
            events w' = events w @ [(''cookieConsent:banner-hidden'', NoDetail),
                                    (''cookieConsent:consent-given'', DecisionDetail d)]"
proof -
  let ?cats = "map (input_value w) (filter (checked w)
                 (descendants w el (''.'' @ categoryCheckboxClass (config w))))"
  let ?d = "\<lparr> accepted = True,
              categories = (if ?cats = [] then [''necessary'', ''analytics'', ''marketing''] else ?cats),
              timestamp = toISOString w (now w) \<rparr>"
  have c: "\<forall>c \<in> set (categories ?d). CHR '';'' \<notin> set c" using assms(5) by auto
  have t: "CHR '';'' \<notin> set (timestamp ?d)" using assms(6) by simp
  note s = accept_state [OF assms(1,2)]
  note r = setCookie_record [OF assms(3,4) c t assms(7,8) s]
  have p: "persisted w (snd (accept w)) ?d"
    unfolding persisted_def stored_decision_def r(2)
    using accept_written [OF assms(1,2)] by (simp add: record_cookie_def del: JSON_stringify.simps)
  show ?thesis
    unfolding Let_def using p r(2,3) accept_result [OF assms(1,2)] by blast
qed

theorem accept_persists_hides_notifies_witness:
  "container example_page = Some 0 \<and>
   selector_ok example_page (''.'' @ categoryCheckboxClass (config example_page)) \<and>
   jar_ok (jar example_page) \<and> cookie_token (cookieName (config example_page)) \<and>
   expiry_ahead example_page \<and>
   fst (accept example_page) = Returns () \<and>
   persisted example_page (snd (accept example_page))
     \<lparr> accepted = True, categories = [''analytics''],
       timestamp = ''2024-01-15T10:30:00.000Z'' \<rparr> \<and>
   getConsent (snd (accept example_page))
     = Returns (wide (decision_json
         \<lparr> accepted = True, categories = [''analytics''],
           timestamp = ''2024-01-15T10:30:00.000Z'' \<rparr>)) \<and>
   hidden_by example_page (snd (accept example_page)) 0 \<and>
   events (snd (accept example_page)) =
     [(''cookieConsent:banner-hidden'', NoDetail),
      (''cookieConsent:consent-given'',
       DecisionDetail \<lparr> accepted = True, categories = [''analytics''],
                        timestamp = ''2024-01-15T10:30:00.000Z'' \<rparr>)]"
proof -
  have h: "container example_page = Some 0"
    "selector_ok example_page (''.'' @ categoryCheckboxClass (config example_page))"
    "jar_ok (jar example_page)" "cookie_token (cookieName (config example_page))"
    by (simp_all add: example_page_def default_config_def default_selectors_def jar_ok_def
        cookie_token_def cookie_ws_def)
  have c: "filter (checked example_page)
             (descendants example_page 0 (''.'' @ categoryCheckboxClass (config example_page)))
           = [1]"
    "input_value example_page (Suc 0) = ''analytics''"
    by (simp_all add: example_page_def default_config_def)
  have t: "toISOString example_page (now example_page) = ''2024-01-15T10:30:00.000Z''"
    "events example_page = []"
    by (simp_all add: example_page_def)
  have u: "toUTCString example_page (expiry_time example_page) = ''Tue, 14 Jan 2025 10:30:00 GMT''"
    by (simp add: expiry_time_def example_facts)
  have e: "expiry_ahead example_page"
    by (simp add: expiry_ahead_def u cookie_trim_def cookie_ws_def example_facts)
  have 5: "\<forall>x \<in> set (filter (checked example_page)
               (descendants example_page 0 (''.'' @ categoryCheckboxClass (config example_page)))).
             CHR '';'' \<notin> set (input_value example_page x)"
    unfolding c by (simp add: c)
  have 6: "CHR '';'' \<notin> set (toISOString example_page (now example_page))"
    "CHR '';'' \<notin> set (toUTCString example_page (expiry_time example_page))"
    unfolding t u by simp_all
  show ?thesis
    using accept_persists_hides_notifies [OF h 5 6 e] h e
    unfolding Let_def c by (simp add: c t del: JSON_stringify.simps)
qed

text \<open>
  The claim as stated, for every state of the inputs and every configuration, fails. With
  a checked input of the value \<^verbatim>\<open>a;b\<close>, \<^verbatim>\<open>accept\<close> returns, but the store holds the JSON
  text cut at the \<open>;\<close>, and \<^verbatim>\<open>getConsent\<close> throws: the decision is not persisted. With an
  empty category class \<^verbatim>\<open>accept\<close> throws the \<^verbatim>\<open>SyntaxError\<close> of \<^verbatim>\<open>querySelectorAll\<close> and
  writes nothing.
\<close>

theorem accept_semicolon_not_persisted:
  \<open>fst (accept semicolon_page) = Returns () \<and>
   map c_value (jar (snd (accept semicolon_page)))
     = [''{"accepted":true,"categories":["a''] \<and>
   getConsent (snd (accept semicolon_page)) = Throws SyntaxError \<and>
   \<not> persisted semicolon_page (snd (accept semicolon_page))
        \<lparr> accepted = True, categories = [''a;b''], timestamp = ''2024-01-15T10:30:00.000Z'' \<rparr> \<and>
   fst (accept classless_page) = Throws SyntaxError \<and>
   cookie_writes (snd (accept classless_page)) = [] \<and>
   events (snd (accept classless_page)) = []\<close>
  by code_simp

text \<open>
  Claim C7, as amended. On a page where \<^verbatim>\<open>init\<close> has found the container, when the record
  name is a valid cookie name and the browser does not read the expiry date as past, then
  whatever the category inputs are, \<^verbatim>\<open>reject()\<close> persists exactly the decision with
  \<^verbatim>\<open>accepted\<close> false, the one category \<^verbatim>\<open>necessary\<close> and the current time (the store holds
  it under the configured name, and \<^verbatim>\<open>getConsent\<close> returns it), hides the banner and emits
  \<^verbatim>\<open>consent-rejected\<close>; and every decision that \<^verbatim>\<open>accept\<close> or \<^verbatim>\<open>reject\<close> persists with
  \<^verbatim>\<open>accepted\<close> false has exactly the category \<^verbatim>\<open>necessary\<close>. That the store holds no name
  or value with a \<open>;\<close> and that the dates the browser writes have none is true of every
  browser.
\<close>

theorem reject_persists_hides_notifies:
  assumes "container w = Some el" "jar_ok (jar w)" "cookie_token (cookieName (config w))"
    and "CHR '';'' \<notin> set (toISOString w (now w))"
    and "CHR '';'' \<notin> set (toUTCString w (expiry_time w))" "expiry_ahead w"
  shows "let d = \<lparr> accepted = False, categories = [''necessary''],
                   timestamp = toISOString w (now w) \<rparr>;
             w' = snd (reject w)
         in fst (reject w) = Returns () \<and> persisted w w' d \<and>
            stored_record w' = Some (record_cookie w d) \<and>
            getConsent w' = Returns (wide (decision_json d)) \<and> hidden_by w w' el \<and>
            events w' = events w @ [(''cookieConsent:banner-hidden'', NoDetail),
                                    (''cookieConsent:consent-rejected'', DecisionDetail d)] \<and>
            (\<forall>ch iv. jar (snd (reject (w\<lparr>checked := ch, input_value := iv\<rparr>))) = jar w' \<and>
                     cookie_writes (snd (reject (w\<lparr>checked := ch, input_value := iv\<rparr>)))
                       = cookie_writes w') \<and>
            (\<forall>d'. (persisted w (snd (accept w)) d' \<or> persisted w w' d') \<and> \<not> accepted d'
                  \<longrightarrow> categories d' = [''necessary''])"
proof -
  let ?d = "\<lparr> accepted = False, categories = [''necessary''], timestamp = toISOString w (now w) \<rparr>"
  have c: "\<forall>c \<in> set (categories ?d). CHR '';'' \<notin> set c" by simp
  have t: "CHR '';'' \<notin> set (timestamp ?d)" using assms(4) by simp
  note s = reject_state [OF assms(1)]
  note r = setCookie_record [OF assms(2,3) c t assms(5,6) s]
  have p: "persisted w (snd (reject w)) ?d"
    unfolding persisted_def stored_decision_def r(2)
    using reject_written [OF assms(1)] by (simp add: record_cookie_def del: JSON_stringify.simps)
  have n: "categories d' = [''necessary'']"
    if "persisted w (snd (accept w)) d' \<or> persisted w (snd (reject w)) d'" "\<not> accepted d'" for d'
  proof -
    from that(1) consider "written w (snd (accept w)) d'" | "written w (snd (reject w)) d'"
      unfolding persisted_def by blast
    then show ?thesis
    proof cases
      case 1
      note ok = accept_written_valid [OF assms(1) 1]
      from written_unique [OF 1 accept_written [OF assms(1) ok]] that(2) show ?thesis by simp
    next
      case 2
      from written_unique [OF 2 reject_written [OF assms(1)]] show ?thesis by simp
    qed
  qed
  show ?thesis
    unfolding Let_def
    using p r(2,3) reject_result [OF assms(1)] reject_ignores_inputs [OF assms(1)] n by blast
qed

theorem reject_persists_hides_notifies_witness:
  "container example_page = Some 0 \<and> jar_ok (jar example_page) \<and>
   cookie_token (cookieName (config example_page)) \<and> expiry_ahead example_page \<and>
   fst (reject example_page) = Returns () \<and>
   persisted example_page (snd (reject example_page))
     \<lparr> accepted = False, categories = [''necessary''],
       timestamp = ''2024-01-15T10:30:00.000Z'' \<rparr> \<and>
   getConsent (snd (reject example_page))
     = Returns (wide (decision_json
         \<lparr> accepted = False, categories = [''necessary''],
           timestamp = ''2024-01-15T10:30:00.000Z'' \<rparr>)) \<and>
   hidden_by example_page (snd (reject example_page)) 0 \<and>
   events (snd (reject example_page)) =
     [(''cookieConsent:banner-hidden'', NoDetail),
      (''cookieConsent:consent-rejected'',
       DecisionDetail \<lparr> accepted = False, categories = [''necessary''],
                        timestamp = ''2024-01-15T10:30:00.000Z'' \<rparr>)]"
proof -
  have h: "container example_page = Some 0"
    "jar_ok (jar example_page)" "cookie_token (cookieName (config example_page))"
    by (simp_all add: example_page_def default_config_def jar_ok_def
        cookie_token_def cookie_ws_def)
  have t: "toISOString example_page (now example_page) = ''2024-01-15T10:30:00.000Z''"
    "events example_page = []"
    by (simp_all add: example_page_def)
  have u: "toUTCString example_page (expiry_time example_page) = ''Tue, 14 Jan 2025 10:30:00 GMT''"
    by (simp add: expiry_time_def example_facts)
  have e: "expiry_ahead example_page"
    by (simp add: expiry_ahead_def u cookie_trim_def cookie_ws_def example_facts)
  have 6: "CHR '';'' \<notin> set (toISOString example_page (now example_page))"
    "CHR '';'' \<notin> set (toUTCString example_page (expiry_time example_page))"
    unfolding t u by simp_all
  from reject_persists_hides_notifies [OF h 6 e]
  have "fst (reject example_page) = Returns () \<and>
   persisted example_page (snd (reject example_page))
     \<lparr> accepted = False, categories = [''necessary''],
       timestamp = ''2024-01-15T10:30:00.000Z'' \<rparr> \<and>
   getConsent (snd (reject example_page))
     = Returns (wide (decision_json
         \<lparr> accepted = False, categories = [''necessary''],
           timestamp = ''2024-01-15T10:30:00.000Z'' \<rparr>)) \<and>
   hidden_by example_page (snd (reject example_page)) 0 \<and>
   events (snd (reject example_page)) =
     [(''cookieConsent:banner-hidden'', NoDetail),
      (''cookieConsent:consent-rejected'',
       DecisionDetail \<lparr> accepted = False, categories = [''necessary''],
                        timestamp = ''2024-01-15T10:30:00.000Z'' \<rparr>)]"
    unfolding Let_def t by (simp del: JSON_stringify.simps)
  with h e show ?thesis by blast
qed

text \<open>
  The claim as stated, for every configuration, fails: with an expiry of minus one day
  \<^verbatim>\<open>reject\<close> returns and has assigned the record, but the browser reads its date as past and
  keeps nothing; reading finds no decision.
\<close>

theorem reject_expired_not_persisted:
  "fst (reject expired_page) = Returns () \<and>
   length (cookie_writes (snd (reject expired_page))) = 1 \<and>
   jar (snd (reject expired_page)) = [] \<and>
   getConsent (snd (reject expired_page)) = Returns JNull \<and>
   \<not> persisted expired_page (snd (reject expired_page))
        \<lparr> accepted = False, categories = [''necessary''],
          timestamp = ''2024-01-15T10:30:00.000Z'' \<rparr>"
  by code_simp

text \<open>
  Claim C6, as amended. Let the record name be free of \<open>;\<close>, \<open>=\<close>, space and tab, and let
  the browser not read the expiry date as past. Then for every decision whose categories and
  timestamp have no \<open>;\<close>, writing it with \<^verbatim>\<open>setCookie\<close> and reading with \<^verbatim>\<open>getConsent\<close>
  at once returns the decision: the same \<^verbatim>\<open>accepted\<close>, the same categories in the same
  order, the same timestamp.
\<close>

theorem write_then_read:
  assumes "jar_ok (jar w)" "cookie_token (cookieName (config w))"
    and "\<forall>c \<in> set (categories d). CHR '';'' \<notin> set c" "CHR '';'' \<notin> set (timestamp d)"
    and "CHR '';'' \<notin> set (toUTCString w (now w + cookieExpiry (config w) * 24 * 60 * 60 * 1000))"
    and "\<forall>e. cookie_date w (cookie_trim
                 (toUTCString w (now w + cookieExpiry (config w) * 24 * 60 * 60 * 1000))) = Some e
             \<longrightarrow> now w < e"
  shows "getConsent (setCookie (cookieName (config w)) (JSON_stringify (decision_json d))
                       (cookieExpiry (config w)) w)
         = Returns (wide (decision_json d))"
proof -
  let ?n = "cookieName (config w)"
  let ?v = "JSON_stringify (decision_json d)"
  let ?u = "toUTCString w (now w + cookieExpiry (config w) * 24 * 60 * 60 * 1000)"
  let ?c = "\<lparr>c_name = ?n, c_value = ?v, c_expires = cookie_date w (cookie_trim ?u)\<rparr>"
  let ?w = "setCookie ?n ?v (cookieExpiry (config w)) w"
  have v: "CHR '';'' \<notin> set ?v" by (rule decision_no_semicolon [OF assms(3,4)])
  note n = token_facts [OF assms(2)]
  have sc: "?w = document_cookie_assign
                (?n @ ''='' @ ?v @ '';'' @ (''expires='' @ ?u) @ '';path=/;SameSite=Strict'') w"
    by (simp only: setCookie_def Let_def)
  have j: "jar ?w = filter (live (now w)) (store_cookie ?c (jar w))"
    by (simp only: sc assign_setCookie [OF assms(2) v assms(5)] decision_trimmed)
  have f: "config ?w = config w" "now ?w = now w"
    by (simp_all only: sc assign_fields)
  have l: "live (now w) ?c" using assms(6) by (simp add: live_def split: option.splits)
  have ok: "jar_ok (filter (live (now w)) (store_cookie ?c (jar w)))"
    by (rule jar_ok_store [OF assms(1)]) (use v n in \<open>simp add: jar_ok_def\<close>)
  have "find (\<lambda>x. c_name x = ?n) (filter (live (now w)) (store_cookie ?c (jar w))) = Some ?c"
    using find_store_cookie [OF l, of "jar w"] by simp
  then have "getCookie ?n ?w = Some ?v"
    unfolding getCookie_def document_cookie_def j f
    by (simp only: filter_filter conj_absorb getCookie_loop_jar [OF ok n(1,2)] option.map cookie.simps)
  then show ?thesis
    unfolding getConsent_def f
    by (simp only: option.case JSON_parse_decision decision_not_empty if_False)
qed


theorem write_then_read_witness:
  "jar_ok (jar example_page) \<and> cookie_token (cookieName (config example_page)) \<and>
   getConsent (setCookie (cookieName (config example_page))
       (JSON_stringify (decision_json
          \<lparr> accepted = True, categories = [''necessary'', ''analytics''],
            timestamp = ''2024-01-15T10:30:00.000Z'' \<rparr>))
       (cookieExpiry (config example_page)) example_page)
   = Returns (wide (JObj [(''accepted'', JBool True),
                          (''categories'', JArr [JStr ''necessary'', JStr ''analytics'']),
                          (''timestamp'', JStr ''2024-01-15T10:30:00.000Z'')]))"
proof -
  let ?d = "\<lparr> accepted = True, categories = [''necessary'', ''analytics''],
              timestamp = ''2024-01-15T10:30:00.000Z'' \<rparr>"
  have 1: "jar_ok (jar example_page)" by (simp add: example_facts jar_ok_def)
  have 2: "cookie_token (cookieName (config example_page))"
    by (simp add: example_facts cookie_token_def cookie_ws_def)
  have 3: "\<forall>c \<in> set (categories ?d). CHR '';'' \<notin> set c" "CHR '';'' \<notin> set (timestamp ?d)"
    by simp_all
  have u: "toUTCString example_page
             (now example_page + cookieExpiry (config example_page) * 24 * 60 * 60 * 1000)
           = ''Tue, 14 Jan 2025 10:30:00 GMT''"
    by (simp add: example_facts)
  have t: "cookie_trim ''Tue, 14 Jan 2025 10:30:00 GMT'' = ''Tue, 14 Jan 2025 10:30:00 GMT''"
    by (simp add: cookie_trim_def cookie_ws_def)
  have 5: "CHR '';'' \<notin> set (toUTCString example_page
             (now example_page + cookieExpiry (config example_page) * 24 * 60 * 60 * 1000))"
    unfolding u by simp
  have 6: "\<forall>e. cookie_date example_page (cookie_trim (toUTCString example_page
             (now example_page + cookieExpiry (config example_page) * 24 * 60 * 60 * 1000))) = Some e
           \<longrightarrow> now example_page < e"
    unfolding u t by (simp add: example_facts)
  show ?thesis
    using write_then_read [OF 1 2 3 5 6] 1 2 by (simp add: decision_json_def)
qed

text \<open>
  The claim as stated, for every decision, fails: the value is written as it is, and the
  cookie store ends it at the first \<open>;\<close>. With a category \<^verbatim>\<open>a;b\<close> what is stored is the JSON
  text up to that place, and reading it throws.
\<close>

theorem write_then_read_semicolon:
  \<open>getCookie ''cookie_consent'' (setCookie ''cookie_consent''
       (JSON_stringify (decision_json
          \<lparr> accepted = True, categories = [''necessary'', ''a;b''],
            timestamp = ''2024-01-15T10:30:00.000Z'' \<rparr>))
       365 example_page)
   = Some ''{"accepted":true,"categories":["necessary","a'' \<and>
   getConsent (setCookie ''cookie_consent''
       (JSON_stringify (decision_json
          \<lparr> accepted = True, categories = [''necessary'', ''a;b''],
            timestamp = ''2024-01-15T10:30:00.000Z'' \<rparr>))
       365 example_page)
   = Throws SyntaxError\<close>
  by code_simp

text \<open>
  Claim C1, as amended. Let the configured record name be a valid cookie name: not empty
  and free of \<open>;\<close>, \<open>=\<close>, space and tab. Then \<^verbatim>\<open>getConsent\<close> returns the absent result when
  no unexpired record is stored under that name and when the stored value is empty. A stored
  value that fails to parse as JSON is not taken as absent: the \<^verbatim>\<open>SyntaxError\<close> of
  \<^verbatim>\<open>JSON.parse\<close> reaches the caller. A value that parses is returned as parsed. (That the
  store holds no name or value with a \<open>;\<close>, and no name with a \<open>=\<close> or a space in front,
  is true of every browser.)
\<close>

theorem getConsent_of_store:
  assumes "jar_ok (jar w)" "cookie_token (cookieName (config w))"
  shows "(stored_record w = None \<longrightarrow> getConsent w = Returns JNull) \<and>
         (\<forall>c. stored_record w = Some c \<and> c_value c = [] \<longrightarrow> getConsent w = Returns JNull) \<and>
         (\<forall>c. stored_record w = Some c \<and> c_value c \<noteq> [] \<and> JSON_parse (c_value c) = None
              \<longrightarrow> getConsent w = Throws SyntaxError) \<and>
         (\<forall>c v. stored_record w = Some c \<and> c_value c \<noteq> [] \<and> JSON_parse (c_value c) = Some v
              \<longrightarrow> getConsent w = Returns v)"
  unfolding getConsent_def getCookie_find [OF assms] stored_record_def by auto

theorem getConsent_of_store_witness:
  "jar_ok (jar corrupted_page) \<and> cookie_token (cookieName (config corrupted_page)) \<and>
   stored_record corrupted_page
     = Some \<lparr>c_name = ''cookie_consent'', c_value = ''abc'', c_expires = None\<rparr> \<and>
   ''abc'' \<noteq> [] \<and> JSON_parse ''abc'' = None \<and>
   getConsent corrupted_page = Throws SyntaxError \<and>
   jar_ok (jar example_page) \<and> cookie_token (cookieName (config example_page)) \<and>
   stored_record example_page = None \<and>
   getConsent example_page = Returns JNull"
proof -
  have c: "jar_ok (jar corrupted_page)" "cookie_token (cookieName (config corrupted_page))"
    "stored_record corrupted_page
       = Some \<lparr>c_name = ''cookie_consent'', c_value = ''abc'', c_expires = None\<rparr>"
    by (simp_all add: corrupted_page_def example_page_def default_config_def jar_ok_def
        cookie_token_def cookie_ws_def stored_record_def live_def)
  have e: "jar_ok (jar example_page)" "cookie_token (cookieName (config example_page))"
    "stored_record example_page = None"
    by (simp_all add: example_page_def default_config_def jar_ok_def
        cookie_token_def cookie_ws_def stored_record_def)
  show ?thesis
    using getConsent_of_store [OF c(1,2)] getConsent_of_store [OF e(1,2)] c e
    by (simp add: JSON_parse_abc)
qed

text \<open>
  The claim as stated, that reading a value that fails to parse returns the absent result
  and never throws, fails: with the record \<^verbatim>\<open>cookie_consent=abc\<close> in the store \<^verbatim>\<open>getConsent\<close>
  throws.
\<close>

theorem getConsent_corrupted: "getConsent corrupted_page = Throws SyntaxError"
  by code_simp

text \<open>
  Claim C9, as amended. When the container selector is valid and matches an element and
  the five classes of the buttons give valid selectors, \<^verbatim>\<open>init\<close> decides from the raw string
  \<^verbatim>\<open>getCookie\<close> returns: with no value or an empty one under the configured name it shows the
  banner, with any other value it hides it, whether or not the value parses; \<^verbatim>\<open>getConsent\<close>
  then returns what the value parses to, or throws when it does not parse. \<^verbatim>\<open>init\<close> returns
  when the class of the inline containers gives a valid selector too, and throws after the
  banner is shown or hidden when it does not.
\<close>

theorem init_checks_raw_presence:
  assumes "selector_ok w (containerSelector (merge_config (config w) opts))"
    and "querySelector w (containerSelector (merge_config (config w) opts)) = Some el"
    and "list_all (selector_ok w) (button_selectors (merge_config (config w) opts))"
  shows "let n = cookieName (merge_config (config w) opts); w' = snd (init opts w) in
     fst (init opts w) =
       (if selector_ok w (''.'' @ inlineCookiesClass (merge_config (config w) opts))
        then Returns () else Throws SyntaxError) \<and>
     (getCookie n w = None \<or> getCookie n w = Some [] \<longrightarrow>
        events w' = events w @ [(''cookieConsent:banner-shown'', NoDetail)] \<and>
        timers w' = timers w @ [(now w + 10, AddVisible)] \<and>
        style w' el ''display'' = Some ''block'') \<and>
     (\<forall>v. getCookie n w = Some v \<and> v \<noteq> [] \<longrightarrow>
        events w' = events w @ [(''cookieConsent:banner-hidden'', NoDetail)] \<and>
        timers w' = timers w @ [(now w + 300, DisplayNone)] \<and>
        ''is-visible'' \<notin> set (classList w' el) \<and>
        style (settle w') el ''display'' = Some ''none'' \<and>
        (JSON_parse v = None \<longrightarrow> getConsent w' = Throws SyntaxError) \<and>
        (\<forall>j. JSON_parse v = Some j \<longrightarrow> getConsent w' = Returns j))"
proof -
  let ?n = "cookieName (merge_config (config w) opts)"
  let ?i = "''.'' @ inlineCookiesClass (merge_config (config w) opts)"
  from init_found [OF assms] obtain w5 where
    u: "untouched (w\<lparr>config := merge_config (config w) opts, container := Some el\<rparr>) w5" and
    i: "init opts w = (case checkConsent w5 of
                            (Throws e, w6) \<Rightarrow> (Throws e, w6)
                          | (Returns c, w6) \<Rightarrow> renderInlineCookies w6)"
    by blast
  have f: "config w5 = merge_config (config w) opts" "container w5 = Some el" "jar w5 = jar w"
    "now w5 = now w" "timers w5 = timers w" "events w5 = events w"
    "selector_ok w5 = selector_ok w"
    using u by (simp_all add: untouched_def)
  have g: "getCookie ?n w5 = getCookie ?n w"
    by (rule getCookie_same_store [OF f(3,4)])
  show ?thesis
  proof (cases "getCookie ?n w = None \<or> getCookie ?n w = Some []")
    case True
    let ?w6 = "triggerEvent ''banner-shown'' NoDetail
                 (setTimeout AddVisible 10 (set_style el ''display'' ''block'' w5))"
    let ?w' = "snd (renderInlineCookies ?w6)"
    have c: "checkConsent w5 = (Returns (getCookie ?n w), ?w6)"
      using True by (auto simp: checkConsent_def f g show_banner_found [OF f(2)])
    have r: "init opts w = renderInlineCookies ?w6"
      unfolding i c by simp
    have k: "untouched ?w6 ?w'" by (rule renderInlineCookies_untouched)
    have o: "fst (renderInlineCookies ?w6) = (if selector_ok w ?i then Returns () else Throws SyntaxError)"
      unfolding renderInlineCookies_outcome
      by (simp add: triggerEvent_def setTimeout_def set_style_def f)
    have "events ?w' = events w @ [(''cookieConsent:banner-shown'', NoDetail)]"
      "timers ?w' = timers w @ [(now w + 10, AddVisible)]"
      "style ?w' el ''display'' = Some ''block''"
      using k by (simp_all add: untouched_def triggerEvent_def setTimeout_def set_style_def f)
    then show ?thesis using True o unfolding Let_def r by auto
  next
    case False
    then obtain v where v: "getCookie ?n w = Some v" "v \<noteq> []" by (cases "getCookie ?n w") auto
    let ?w6 = "triggerEvent ''banner-hidden'' NoDetail
                 (setTimeout DisplayNone 300 (classList_remove el ''is-visible'' w5))"
    let ?w' = "snd (renderInlineCookies ?w6)"
    have c: "checkConsent w5 = (Returns (getCookie ?n w), ?w6)"
      using v by (simp add: checkConsent_def f g hide_found [OF f(2)])
    have r: "init opts w = renderInlineCookies ?w6"
      unfolding i c by simp
    have k: "untouched ?w6 ?w'" by (rule renderInlineCookies_untouched)
    have o: "fst (renderInlineCookies ?w6) = (if selector_ok w ?i then Returns () else Throws SyntaxError)"
      unfolding renderInlineCookies_outcome
      by (simp add: triggerEvent_def setTimeout_def classList_remove_def f)
    have 1: "events ?w' = events w @ [(''cookieConsent:banner-hidden'', NoDetail)]"
      "timers ?w' = timers w @ [(now w + 300, DisplayNone)]"
      "''is-visible'' \<notin> set (classList ?w' el)"
      "container ?w' = Some el" "config ?w' = merge_config (config w) opts"
      "jar ?w' = jar w" "now ?w' = now w"
      using k by (simp_all add: untouched_def triggerEvent_def setTimeout_def classList_remove_def f)
    have 2: "style (settle ?w') el ''display'' = Some ''none''"
      by (rule settle_display_none [OF 1(4)]) (simp add: 1(2))
    have "getCookie ?n ?w' = Some v"
      using getCookie_same_store [OF 1(6,7)] v by simp
    then have 3: "JSON_parse v = None \<longrightarrow> getConsent ?w' = Throws SyntaxError"
      "\<forall>j. JSON_parse v = Some j \<longrightarrow> getConsent ?w' = Returns j"
      using v(2) by (simp_all add: getConsent_def 1(5))
    show ?thesis using v 1 2 3 o unfolding Let_def r by auto
  qed
qed

theorem init_checks_raw_presence_witness:
  "selector_ok corrupted_page
     (containerSelector (merge_config (config corrupted_page) no_options)) \<and>
   querySelector corrupted_page (containerSelector (merge_config (config corrupted_page) no_options))
     = Some 0 \<and>
   list_all (selector_ok corrupted_page)
     (button_selectors (merge_config (config corrupted_page) no_options)) \<and>
   getCookie ''cookie_consent'' corrupted_page = Some ''abc'' \<and> ''abc'' \<noteq> [] \<and>
   JSON_parse ''abc'' = None \<and>
   fst (init no_options corrupted_page) = Returns () \<and>
   events (snd (init no_options corrupted_page)) = [(''cookieConsent:banner-hidden'', NoDetail)] \<and>
   style (settle (snd (init no_options corrupted_page))) 0 ''display'' = Some ''none'' \<and>
   getConsent (snd (init no_options corrupted_page)) = Throws SyntaxError \<and>
   getCookie ''cookie_consent'' example_page = None \<and>
   events (snd (init no_options example_page)) = [(''cookieConsent:banner-shown'', NoDetail)] \<and>
   style (snd (init no_options example_page)) 0 ''display'' = Some ''block''"
  using init_checks_raw_presence [OF corrupted_facts(5,1,6)]
    init_checks_raw_presence [OF example_init_facts(4,1,5)]
  by (simp add: Let_def corrupted_facts corrupted_facts(7) [simplified] corrupted_cookie
      JSON_parse_abc example_init_facts example_init_facts(6) [simplified] example_cookie)

text \<open>
  The claim as stated, that \<^verbatim>\<open>init\<close> shows the banner if and only if no value is stored under
  the configured name, fails where \<^verbatim>\<open>init\<close> does not come to look at the cookie. With an
  empty class for the accept buttons the query of \<^verbatim>\<open>bindEvents\<close> throws, and in a document
  where the container selector matches nothing \<^verbatim>\<open>init\<close> returns after its warning: in both
  cases no value is stored and the banner is not shown.
\<close>

theorem init_stops_before_the_check:
  "getCookie ''cookie_consent'' example_page = None \<and>
   fst (init classless_options example_page) = Throws SyntaxError \<and>
   events (snd (init classless_options example_page)) = [] \<and>
   timers (snd (init classless_options example_page)) = [] \<and>
   style (snd (init classless_options example_page)) 0 ''display'' = None \<and>
   getCookie ''cookie_consent'' bare_page = None \<and>
   fst (init no_options bare_page) = Returns () \<and>
   events (snd (init no_options bare_page)) = [] \<and>
   timers (snd (init no_options bare_page)) = [] \<and>
   style (snd (init no_options bare_page)) 0 ''display'' = None"
  by code_simp

text \<open>
  Claim C3, as amended. Every decision that \<^verbatim>\<open>accept\<close> or \<^verbatim>\<open>reject\<close> persists with
  \<^verbatim>\<open>accepted\<close> true has a category, and \<^verbatim>\<open>necessary\<close> is among its categories exactly when no
  category input is checked or a checked input has the value \<^verbatim>\<open>necessary\<close>. This holds of
  every decision the two write to the cookie, whether or not the store keeps it.
\<close>

theorem accepted_categories:
  assumes "container w = Some el"
    and "written w (snd (accept w)) d \<or> written w (snd (reject w)) d" "accepted d"
  shows "categories d \<noteq> [] \<and>
         (''necessary'' \<in> set (categories d) \<longleftrightarrow>
            (let cats = map (input_value w) (filter (checked w)
                          (descendants w el (''.'' @ categoryCheckboxClass (config w))))
             in cats = [] \<or> ''necessary'' \<in> set cats))"
proof -
  let ?cats = "map (input_value w) (filter (checked w)
                  (descendants w el (''.'' @ categoryCheckboxClass (config w))))"
  let ?a = "\<lparr> accepted = True,
              categories = (if ?cats = [] then [''necessary'', ''analytics'', ''marketing''] else ?cats),
              timestamp = toISOString w (now w) \<rparr>"
  let ?r = "\<lparr> accepted = False, categories = [''necessary''], timestamp = toISOString w (now w) \<rparr>"
  have "d = ?a \<or> d = ?r"
  proof -
    from assms(2) consider "written w (snd (accept w)) d" | "written w (snd (reject w)) d"
      by blast
    then show ?thesis
    proof cases
      case 1
      note ok = accept_written_valid [OF assms(1) 1]
      from written_unique [OF 1 accept_written [OF assms(1) ok]] show ?thesis by simp
    next
      case 2
      from written_unique [OF 2 reject_written [OF assms(1)]] show ?thesis by simp
    qed
  qed
  then have "d = ?a" using assms(3) by auto
  then have c: "categories d = (if ?cats = [] then [''necessary'', ''analytics'', ''marketing''] else ?cats)"
    by simp
  show ?thesis unfolding c Let_def by (cases "?cats = []") simp_all
qed

theorem accepted_categories_witness:
  "container unchecked_page = Some 0 \<and>
   written unchecked_page (snd (accept unchecked_page))
     \<lparr> accepted = True, categories = [''necessary'', ''analytics'', ''marketing''],
       timestamp = ''2024-01-15T10:30:00.000Z'' \<rparr> \<and>
   accepted \<lparr> accepted = True, categories = [''necessary'', ''analytics'', ''marketing''],
       timestamp = ''2024-01-15T10:30:00.000Z'' \<rparr> \<and>
   categories \<lparr> accepted = True, categories = [''necessary'', ''analytics'', ''marketing''],
       timestamp = ''2024-01-15T10:30:00.000Z'' \<rparr> \<noteq> [] \<and>
   ''necessary'' \<in> set (categories \<lparr> accepted = True,
       categories = [''necessary'', ''analytics'', ''marketing''],
       timestamp = ''2024-01-15T10:30:00.000Z'' \<rparr>)"
proof -
  let ?d = "\<lparr> accepted = True, categories = [''necessary'', ''analytics'', ''marketing''],
       timestamp = ''2024-01-15T10:30:00.000Z'' \<rparr>"
  have h: "container unchecked_page = Some 0" by (simp add: unchecked_page_def example_page_def)
  have s: "selector_ok unchecked_page (''.'' @ categoryCheckboxClass (config unchecked_page))"
    by (simp add: unchecked_page_def example_page_def default_config_def default_selectors_def)
  have c: "map (input_value unchecked_page) (filter (checked unchecked_page)
             (descendants unchecked_page 0 (''.'' @ categoryCheckboxClass (config unchecked_page))))
           = []"
    by (simp add: unchecked_page_def)
  have t: "toISOString unchecked_page (now unchecked_page) = ''2024-01-15T10:30:00.000Z''"
    by (simp add: unchecked_page_def example_page_def)
  have p: "written unchecked_page (snd (accept unchecked_page)) ?d"
    using accept_written [OF h s] unfolding c t by simp
  have a: "accepted ?d" by simp
  from accepted_categories [OF h disjI1 [OF p] a] h p a show ?thesis by simp
qed

text \<open>
  The claim as stated, that such a decision always contains \<^verbatim>\<open>necessary\<close>, fails: with
  only the \<^verbatim>\<open>analytics\<close> input checked, \<^verbatim>\<open>accept\<close> persists the one category \<^verbatim>\<open>analytics\<close>:
  it writes that decision, and the store holds it.
\<close>

theorem accepted_without_necessary:
  "written example_page (snd (accept example_page))
     \<lparr> accepted = True, categories = [''analytics''],
       timestamp = ''2024-01-15T10:30:00.000Z'' \<rparr> \<and>
   persisted example_page (snd (accept example_page))
     \<lparr> accepted = True, categories = [''analytics''],
       timestamp = ''2024-01-15T10:30:00.000Z'' \<rparr> \<and>
   accepted \<lparr> accepted = True, categories = [''analytics''],
              timestamp = ''2024-01-15T10:30:00.000Z'' \<rparr> \<and>
   ''necessary'' \<notin> set (categories \<lparr> accepted = True, categories = [''analytics''],
              timestamp = ''2024-01-15T10:30:00.000Z'' \<rparr>)"
  by code_simp

text \<open>
  Claim C5, as amended. On a page where \<^verbatim>\<open>init\<close> has found the container, \<^verbatim>\<open>reject\<close>, and
  \<^verbatim>\<open>accept\<close> when the category class gives a valid selector, assign to \<^verbatim>\<open>document.cookie\<close>
  the configured name, \<open>=\<close>, the JSON text of the decision as \<^verbatim>\<open>JSON.stringify\<close> wrote it,
  the expiry as an absolute date, the path \<^verbatim>\<open>/\<close> and \<^verbatim>\<open>SameSite=Strict\<close>. When the record
  name is a valid cookie name and no category has a \<open>;\<close>, the cookie the store takes from
  the assignment has that name and that JSON text as its value, with no encoding: the text
  is never its own URL-encoding. That the dates the browser writes have no \<open>;\<close> is true of
  every browser.
\<close>

theorem record_is_plain_json:
  assumes "container w = Some el" "cookie_token (cookieName (config w))"
    and "CHR '';'' \<notin> set (toISOString w (now w))"
    and "CHR '';'' \<notin> set (toUTCString w (expiry_time w))"
  shows "let cats = map (input_value w) (filter (checked w)
                      (descendants w el (''.'' @ categoryCheckboxClass (config w))));
             da = \<lparr> accepted = True,
                    categories = (if cats = [] then [''necessary'', ''analytics'', ''marketing''] else cats),
                    timestamp = toISOString w (now w) \<rparr>;
             dr = \<lparr> accepted = False, categories = [''necessary''],
                    timestamp = toISOString w (now w) \<rparr>
         in written w (snd (reject w)) dr \<and>
            jar (snd (reject w)) =
              filter (live (now w))
                (store_cookie
                   \<lparr>c_name = cookieName (config w), c_value = JSON_stringify (decision_json dr),
                    c_expires = cookie_date w (cookie_trim (toUTCString w (expiry_time w)))\<rparr>
                   (jar w)) \<and>
            (selector_ok w (''.'' @ categoryCheckboxClass (config w)) \<longrightarrow>
               written w (snd (accept w)) da \<and>
               ((\<forall>c \<in> set cats. CHR '';'' \<notin> set c) \<longrightarrow>
                  jar (snd (accept w)) =
                    filter (live (now w))
                      (store_cookie
                         \<lparr>c_name = cookieName (config w),
                          c_value = JSON_stringify (decision_json da),
                          c_expires = cookie_date w (cookie_trim (toUTCString w (expiry_time w)))\<rparr>
                         (jar w)))) \<and>
            (\<forall>d. JSON_stringify (decision_json d)
                   \<noteq> encodeURIComponent (JSON_stringify (decision_json d)))"
proof -
  let ?cats = "map (input_value w) (filter (checked w)
                 (descendants w el (''.'' @ categoryCheckboxClass (config w))))"
  let ?da = "\<lparr> accepted = True,
               categories = (if ?cats = [] then [''necessary'', ''analytics'', ''marketing''] else ?cats),
               timestamp = toISOString w (now w) \<rparr>"
  let ?dr = "\<lparr> accepted = False, categories = [''necessary''], timestamp = toISOString w (now w) \<rparr>"
  have u: "CHR '';'' \<notin> set (toUTCString w (now w + cookieExpiry (config w) * 24 * 60 * 60 * 1000))"
    using assms(4) by (simp add: expiry_time_def)
  have j: "jar (setCookie (cookieName (config w)) (JSON_stringify (decision_json d))
                  (cookieExpiry (config w)) w)
           = filter (live (now w)) (store_cookie (record_cookie w d) (jar w))"
    if "\<forall>c \<in> set (categories d). CHR '';'' \<notin> set c" "CHR '';'' \<notin> set (timestamp d)" for d
    unfolding setCookie_jar [OF assms(2) that u]
    by (simp only: record_cookie_def expiry_time_def)
  have r: "jar (snd (reject w)) = filter (live (now w)) (store_cookie (record_cookie w ?dr) (jar w))"
    unfolding reject_state(1) [OF assms(1)] using assms(3) by (intro j) simp_all
  have a: "jar (snd (accept w)) = filter (live (now w)) (store_cookie (record_cookie w ?da) (jar w))"
    if "selector_ok w (''.'' @ categoryCheckboxClass (config w))"
      "\<forall>c \<in> set ?cats. CHR '';'' \<notin> set c"
    unfolding accept_state(1) [OF assms(1) that(1)] using assms(3) that(2) by (intro j) auto
  have e: "JSON_stringify (decision_json d) \<noteq> encodeURIComponent (JSON_stringify (decision_json d))"
    for d
    using decision_not_encoded [of d] by (simp only: not_sym simp_thms)
  show ?thesis
    unfolding Let_def
    using reject_written [OF assms(1)] accept_written [OF assms(1)] r a e
    unfolding record_cookie_def by blast
qed

theorem record_is_plain_json_witness:
  \<open>container example_page = Some 0 \<and> cookie_token (cookieName (config example_page)) \<and>
   selector_ok example_page (''.'' @ categoryCheckboxClass (config example_page)) \<and>
   written example_page (snd (reject example_page))
     \<lparr> accepted = False, categories = [''necessary''],
       timestamp = ''2024-01-15T10:30:00.000Z'' \<rparr> \<and>
   jar (snd (reject example_page)) =
     [\<lparr>c_name = ''cookie_consent'',
       c_value = ''{"accepted":false,"categories":["necessary"],"timestamp":"2024-01-15T10:30:00.000Z"}'',
       c_expires = Some 1736850600000\<rparr>] \<and>
   jar (snd (accept example_page)) =
     [\<lparr>c_name = ''cookie_consent'',
       c_value = ''{"accepted":true,"categories":["analytics"],"timestamp":"2024-01-15T10:30:00.000Z"}'',
       c_expires = Some 1736850600000\<rparr>]\<close>
proof -
  have h: "container example_page = Some 0" "cookie_token (cookieName (config example_page))"
    by (simp_all add: example_page_def default_config_def cookie_token_def cookie_ws_def)
  have s: "selector_ok example_page (''.'' @ categoryCheckboxClass (config example_page))"
    by (simp add: example_page_def default_config_def default_selectors_def)
  have c: "filter (checked example_page)
             (descendants example_page 0 (''.'' @ categoryCheckboxClass (config example_page)))
           = [1]"
    "input_value example_page (Suc 0) = ''analytics''"
    by (simp_all add: example_page_def default_config_def)
  have t: "toISOString example_page (now example_page) = ''2024-01-15T10:30:00.000Z''"
    by (simp add: example_page_def)
  have u: "toUTCString example_page (expiry_time example_page) = ''Tue, 14 Jan 2025 10:30:00 GMT''"
    by (simp add: expiry_time_def example_facts)
  have k: "cookie_trim ''Tue, 14 Jan 2025 10:30:00 GMT'' = ''Tue, 14 Jan 2025 10:30:00 GMT''"
    by (simp add: cookie_trim_def cookie_ws_def)
  have 6: "CHR '';'' \<notin> set (toISOString example_page (now example_page))"
    "CHR '';'' \<notin> set (toUTCString example_page (expiry_time example_page))"
    unfolding t u by simp_all
  show ?thesis
    using record_is_plain_json [OF h 6] h s
    unfolding Let_def c t u k
    by (simp add: c example_facts live_def decision_json_def JSON_quote_def json_escape_def)
qed

text \<open>
  The claim as stated, that the value is the URL-encoded JSON text, fails: what \<^verbatim>\<open>reject\<close>
  stores on the example page is the JSON text itself, and its URL-encoding is another
  string.
\<close>

theorem record_not_url_encoded:
  \<open>map c_value (jar (snd (reject example_page))) =
     [''{"accepted":false,"categories":["necessary"],"timestamp":"2024-01-15T10:30:00.000Z"}''] \<and>
   encodeURIComponent (JSON_stringify (decision_json
      \<lparr> accepted = False, categories = [''necessary''],
        timestamp = ''2024-01-15T10:30:00.000Z'' \<rparr>)) =
     ''%7B%22accepted%22%3Afalse%2C%22categories%22%3A%5B%22necessary%22%5D%2C%22timestamp%22%3A%222024-01-15T10%3A30%3A00.000Z%22%7D''\<close>
  by code_simp



text \<open>
  Claim C2, as amended. On a page where \<^verbatim>\<open>init\<close> has found the container, after any
  sequence of \<^verbatim>\<open>hide()\<close> and \<^verbatim>\<open>show()\<close> calls, with any time between them, the final
  display state of the banner is the one the last transition asked for when that transition
  is \<^verbatim>\<open>hide()\<close>, and when it is \<^verbatim>\<open>show()\<close> and no display toggle of an earlier \<^verbatim>\<open>hide()\<close> is
  pending at that call. When such a toggle is pending at a last \<^verbatim>\<open>show()\<close>, the banner ends
  not displayed. No transition cancels a deferred action, it adds its own to those that are
  pending; and the display toggle, when it runs, takes the banner out of the layout whatever
  the last transition was.
\<close>

theorem last_transition_display:
  assumes "container w = Some el"
  shows "style (settle (run (cs @ Hide # map Wait ds) w)) el ''display'' = Some ''none'' \<and>
         (DisplayNone \<notin> snd ` set (timers (run cs w)) \<longrightarrow>
            style (settle (run (cs @ Show # map Wait ds) w)) el ''display'' = Some ''block'') \<and>
         (DisplayNone \<in> snd ` set (timers (run cs w)) \<longrightarrow>
            style (settle (run (cs @ Show # map Wait ds) w)) el ''display'' = Some ''none'') \<and>
         timers (run (cs @ [Show]) w) = timers (run cs w) @ [(now (run cs w) + 10, AddVisible)] \<and>
         timers (run (cs @ [Hide]) w) = timers (run cs w) @ [(now (run cs w) + 300, DisplayNone)] \<and>
         style (fire DisplayNone (run cs w)) el ''display'' = Some ''none''"
proof -
  have c: "container (run cs w) = Some el" using assms by (simp add: run_container)
  have "hiding el (run (map Wait ds) (snd (hide (run cs w))))"
    by (rule hiding_waits [OF hiding_hide [OF c]])
  then have 1: "style (settle (run (cs @ Hide # map Wait ds) w)) el ''display'' = Some ''none''"
    by (simp add: run_append hiding_settle)
  have 2: "style (settle (run (cs @ Show # map Wait ds) w)) el ''display'' = Some ''block''"
    if "DisplayNone \<notin> snd ` set (timers (run cs w))"
  proof -
    have "showing el (run (map Wait ds) (snd (show_banner (run cs w))))"
      by (rule showing_waits [OF showing_show [OF c that]])
    then show ?thesis by (simp add: run_append showing_settle)
  qed
  have 3: "style (settle (run (cs @ Show # map Wait ds) w)) el ''display'' = Some ''none''"
    if "DisplayNone \<in> snd ` set (timers (run cs w))"
  proof -
    have "hiding el (run (map Wait ds) (snd (show_banner (run cs w))))"
      by (rule hiding_waits [OF hiding_show [OF c that]])
    then show ?thesis by (simp add: run_append hiding_settle)
  qed
  have 4: "timers (run (cs @ [Show]) w) = timers (run cs w) @ [(now (run cs w) + 10, AddVisible)]"
    "timers (run (cs @ [Hide]) w) = timers (run cs w) @ [(now (run cs w) + 300, DisplayNone)]"
    by (simp_all add: run_append show_hide_timers [OF c])
  have 5: "style (fire DisplayNone (run cs w)) el ''display'' = Some ''none''"
    by (simp add: fire_display [OF c])
  from 1 2 3 4 5 show ?thesis by blast
qed

theorem last_transition_display_witness:
  "container example_page = Some 0 \<and>
   style (settle (run ([Hide, Wait 300] @ Hide # map Wait [5]) example_page)) 0 ''display''
     = Some ''none'' \<and>
   DisplayNone \<notin> snd ` set (timers (run [Hide, Wait 300] example_page)) \<and>
   style (settle (run ([Hide, Wait 300] @ Show # map Wait [5]) example_page)) 0 ''display''
     = Some ''block'' \<and>
   DisplayNone \<in> snd ` set (timers (run [Hide, Wait 299] example_page)) \<and>
   style (settle (run ([Hide, Wait 299] @ Show # map Wait [5]) example_page)) 0 ''display''
     = Some ''none''"
proof -
  have h: "container example_page = Some 0" by (simp add: example_page_def)
  have t: "timers (advance 300 (snd (hide example_page))) = []" by code_simp
  have u: "timers (advance 299 (snd (hide example_page))) = [(1705314600300, DisplayNone)]"
    by code_simp
  show ?thesis
    using last_transition_display [OF h, of "[Hide, Wait 300]" "[5]"]
      last_transition_display [OF h, of "[Hide, Wait 299]" "[5]"] h
    by (simp add: t u)
qed

text \<open>
  The claim as stated, for every sequence, fails: no deferred action looks at the intended
  state and none is cancelled. After \<^verbatim>\<open>hide()\<close> and at once \<^verbatim>\<open>show()\<close> the toggle of the
  \<^verbatim>\<open>hide()\<close> is still pending, the banner is displayed, and when the timers have run it is
  not.
\<close>

theorem show_after_hide_ends_hidden:
  "timers (run [Hide, Show] example_page)
     = [(1705314600300, DisplayNone), (1705314600010, AddVisible)] \<and>
   style (run [Hide, Show] example_page) 0 ''display'' = Some ''block'' \<and>
   style (settle (run [Hide, Show] example_page)) 0 ''display'' = Some ''none''"
  by code_simp




end
